theory Spec2Isabelle
  imports Complex_Main
begin

section \<open>The PowerSpectrum module of the loudness library\<close>

text \<open>
  A shallow embedding of \<^verbatim>\<open>src/modules/PowerSpectrum.cpp\<close>: the constructor,
  \<^verbatim>\<open>initializeInternal\<close> (the configuration stage) and \<^verbatim>\<open>processInternal\<close> (the
  per-frame stage).

  Conventions of the embedding.
  \<^item> \<^verbatim>\<open>Real\<close> (a C++ double) is the type \<open>real\<close>: rounding and infinities are not
    modelled. Division is HOL's, so an equation with a zero denominator (sample rate 0,
    reference value 0) says nothing about the IEEE result of the C++ expression.
  \<^item> \<^verbatim>\<open>int\<close> is the type \<open>int\<close>. Where the code multiplies two \<^verbatim>\<open>int\<close> values (lines 113
    and 136) the product is reduced to 32 bits by \<open>c_int\<close>; the sums and differences of
    bin indices and the conversion of \<^verbatim>\<open>ceil\<close> to \<^verbatim>\<open>int\<close> are taken without overflow.
  \<^item> The members of the C++ object are the fields of the record \<open>PowerSpectrum\<close>, and
    every member function takes the object and returns the updated one.
  \<^item> The logging macros (LOUDNESS_WARNING, LOUDNESS_DEBUG) change no member and are left out.
\<close>

subsection \<open>Collaborators that the source file only uses\<close>

type_synonym Real = real

text \<open>
  Modelled from the spec: the class \<^verbatim>\<open>SignalBank\<close> is declared outside the source
  file. The record holds what the accessors used here read and write: the shape
  (ears, channels, samples per channel), the sample rate, the frame rate, the centre
  frequency stored for each channel index by \<^verbatim>\<open>setCentreFreq\<close>, and the samples that
  \<^verbatim>\<open>getSignalReadPointer(ear, chn, 0)\<close> points to.
\<close>

record SignalBank =
  nEars :: int
  nChannels :: int
  nSamples :: int
  fs :: int
  frameRate :: Real
  centreFreqs :: "int \<rightharpoonup> Real"
  signal :: "int \<Rightarrow> int \<Rightarrow> Real list"

definition SignalBank_initialize :: "int \<Rightarrow> int \<Rightarrow> int \<Rightarrow> int \<Rightarrow> SignalBank \<Rightarrow> SignalBank" where
  "SignalBank_initialize e c s f bank =
     bank\<lparr>nEars := e, nChannels := c, nSamples := s, fs := f,
          centreFreqs := Map.empty, signal := (\<lambda>_ _. replicate (nat s) 0)\<rparr>"

definition setFrameRate :: "Real \<Rightarrow> SignalBank \<Rightarrow> SignalBank" where
  "setFrameRate r bank = bank\<lparr>frameRate := r\<rparr>"

definition setCentreFreq :: "int \<Rightarrow> Real \<Rightarrow> SignalBank \<Rightarrow> SignalBank" where
  "setCentreFreq k f bank = bank\<lparr>centreFreqs := (centreFreqs bank)(k \<mapsto> f)\<rparr>"

definition emptySignalBank :: SignalBank where
  "emptySignalBank =
     \<lparr>nEars = 0, nChannels = 0, nSamples = 0, fs = 0, frameRate = 0,
      centreFreqs = Map.empty, signal = (\<lambda>_ _. [])\<rparr>"

text \<open>
  Modelled from the spec: the class \<^verbatim>\<open>FFT\<close> is the external transform collaborator
  (fixed size at construction, \<^verbatim>\<open>process(samples, count)\<close>, then reads of the real and
  imaginary part by bin index). An engine is its transform size, whether
  \<^verbatim>\<open>initialize\<close> ran, and the frame it was last given; what \<^verbatim>\<open>getReal\<close> and \<^verbatim>\<open>getImag\<close>
  return for an engine is a parameter of \<open>processInternal\<close>.
\<close>

record FFT =
  fft_size :: int
  fft_ready :: bool
  fft_frame :: "Real list"
  fft_count :: int

definition new_FFT :: "int \<Rightarrow> FFT" where
  "new_FFT n = \<lparr>fft_size = n, fft_ready = False, fft_frame = [], fft_count = 0\<rparr>"

definition FFT_initialize :: "FFT \<Rightarrow> FFT" where
  "FFT_initialize e = e\<lparr>fft_ready := True\<rparr>"

definition FFT_process :: "Real list \<Rightarrow> int \<Rightarrow> FFT \<Rightarrow> FFT" where
  "FFT_process samples n e = e\<lparr>fft_frame := samples, fft_count := n\<rparr>"

text \<open>
  Modelled from the spec: \<^verbatim>\<open>nextPowerOfTwo\<close> is a helper defined outside the source
  file; the spec describes its result as the smallest power of two that is greater
  than or equal to its argument. The model doubles a candidate, starting at 1.
\<close>

function nextPowerOfTwoFrom :: "int \<Rightarrow> int \<Rightarrow> int" where
  "nextPowerOfTwoFrom p n = (if 0 < p \<and> p < n then nextPowerOfTwoFrom (2 * p) n else p)"
  by pat_completeness auto
termination
  by (relation "measure (\<lambda>(p, n). nat (n - p))") auto

definition nextPowerOfTwo :: "int \<Rightarrow> int" where
  "nextPowerOfTwo n = nextPowerOfTwoFrom 1 n"

text \<open>
  Modelled from the spec: \<^verbatim>\<open>anyAscendingValues\<close> is a helper defined outside the
  source file; the spec describes the check as "must not contain an ascending
  adjacent pair".
\<close>

fun anyAscendingValues :: "int list \<Rightarrow> bool" where
  "anyAscendingValues (x # y # zs) = (x < y \<or> anyAscendingValues (y # zs))"
| "anyAscendingValues _ = False"

text \<open>
  Modelled from the spec: the macro \<^verbatim>\<open>LOUDNESS_ASSERT(cond, msg)\<close> is defined outside
  the source file. Following the spec's error taxonomy, a failed assertion aborts the
  call and reports a fatal error to the caller: ShapeMismatch for the two count checks,
  InvalidParameter for the window order, EmptyBand with the channel index for the
  check on the upper bin of a band. \<open>OutOfBounds\<close> is not an assertion: it marks a read
  of a \<^verbatim>\<open>std::vector\<close> element that does not exist, where C++ defines no behaviour.
\<close>

datatype failure = ShapeMismatch | InvalidParameter | EmptyBand nat | OutOfBounds

subsection \<open>The object and its constructor\<close>

text \<open>
  The enumeration \<^verbatim>\<open>Normalisation\<close> is declared in the header; the source file names
  its values NONE, ENERGY and AVERAGE_POWER and has a \<^verbatim>\<open>default:\<close> branch for any other
  value of the underlying integer type.
\<close>

datatype Normalisation = NONE | ENERGY | AVERAGE_POWER | OTHER int

record PowerSpectrum =
  bandFreqsHz :: "Real list"
  windowSizes :: "int list"
  sampleSpectrumUniformly :: bool
  normalisation :: Normalisation
  referenceValue :: Real
  ffts :: "FFT list"
  bandBinIndices :: "int list list"
  normFactor :: "Real list"
  outputBank :: SignalBank

definition new_PowerSpectrum :: "Real list \<Rightarrow> int list \<Rightarrow> bool \<Rightarrow> PowerSpectrum" where
  "new_PowerSpectrum bandFreqs windows uniform =
     \<lparr>bandFreqsHz = bandFreqs, windowSizes = windows, sampleSpectrumUniformly = uniform,
      normalisation = AVERAGE_POWER, referenceValue = 2 / 100000,
      ffts = [], bandBinIndices = [], normFactor = [], outputBank = emptySignalBank\<rparr>"

definition setNormalisation :: "Normalisation \<Rightarrow> PowerSpectrum \<Rightarrow> PowerSpectrum" where
  "setNormalisation m ps = ps\<lparr>normalisation := m\<rparr>"

definition setReferenceValue :: "Real \<Rightarrow> PowerSpectrum \<Rightarrow> PowerSpectrum" where
  "setReferenceValue r ps = ps\<lparr>referenceValue := r\<rparr>"

subsection \<open>initializeInternal\<close>

text \<open>\<^verbatim>\<open>std::vector::resize(n)\<close>: keeps the first n elements, pads with the default value.\<close>

definition resize :: "nat \<Rightarrow> 'a \<Rightarrow> 'a list \<Rightarrow> 'a list" where
  "resize n d xs = take n xs @ replicate (n - length xs) d"

text \<open>C++ integer division and remainder truncate towards zero.\<close>

definition c_div :: "int \<Rightarrow> int \<Rightarrow> int" where
  "c_div a b = sgn a * sgn b * (\<bar>a\<bar> div \<bar>b\<bar>)"

definition c_mod :: "int \<Rightarrow> int \<Rightarrow> int" where
  "c_mod a b = sgn a * (\<bar>a\<bar> mod \<bar>b\<bar>)"

text \<open>
  The value of an \<^verbatim>\<open>int\<close> expression whose mathematical result is \<open>x\<close>: a 32-bit
  two's-complement number. C++ leaves signed overflow undefined; the usual targets
  wrap around, and so does the model.
\<close>

definition c_int :: "int \<Rightarrow> int" where
  "c_int x = (x + 2 ^ 31) mod 2 ^ 32 - 2 ^ 31"

text \<open>
  Lines 62 to 67: the loop that gives every window its own engine. It returns the
  local vector \<^verbatim>\<open>fftSize\<close> and the member \<^verbatim>\<open>ffts_\<close>.
\<close>

function fftLoop :: "int list \<Rightarrow> nat \<Rightarrow> int list \<Rightarrow> FFT list \<Rightarrow> int list \<times> FFT list" where
  "fftLoop windows w fftSize engines =
     (if w < length windows
      then let n = nextPowerOfTwo (windows ! w)
           in fftLoop windows (Suc w) (fftSize[w := n]) (engines @ [FFT_initialize (new_FFT n)])
      else (fftSize, engines))"
  by pat_completeness auto
termination
  by (relation "measure (\<lambda>(windows, w, fftSize, engines). length windows - w)") auto

text \<open>Lines 80 and 82: the bin index of a band edge, \<^verbatim>\<open>ceil(f * fftSize / fs)\<close>.\<close>

definition binIndex :: "Real \<Rightarrow> int \<Rightarrow> int \<Rightarrow> int" where
  "binIndex f n rate = \<lceil>f * of_int n / of_int rate\<rceil>"

text \<open>Line 87: the index of the Nyquist bin.\<close>

definition nyqIdx :: "int \<Rightarrow> int" where
  "nyqIdx n = c_div n 2 + c_mod n 2"

text \<open>
  Lines 104 to 117: the normalisation switch. In the branch of AVERAGE_POWER the
  expression \<^verbatim>\<open>fftSize[i] * windowSizes_[i] * refSquared\<close> multiplies the two \<^verbatim>\<open>int\<close> values
  first, in \<^verbatim>\<open>int\<close>, and the product with the double after that; in the other branches
  the \<^verbatim>\<open>int\<close> is converted before it is multiplied.
\<close>

definition normalisationFactor :: "Normalisation \<Rightarrow> int \<Rightarrow> int \<Rightarrow> Real \<Rightarrow> Real" where
  "normalisationFactor mode n window refSquared =
     (case mode of
        NONE \<Rightarrow> 1 / refSquared
      | ENERGY \<Rightarrow> 2 / (of_int n * refSquared)
      | AVERAGE_POWER \<Rightarrow> 2 / (of_int (c_int (n * window)) * refSquared)
      | OTHER _ \<Rightarrow> 2 / (of_int n * refSquared))"

text \<open>
  Lines 78 to 119: the body of the loop over the bands, for band \<open>i\<close>. It returns the
  updated bin count and object, or the failure of the assertion of line 83 with the
  object as the assertion leaves it.
\<close>

definition bandStep ::
  "int \<Rightarrow> int list \<Rightarrow> nat \<Rightarrow> int \<Rightarrow> PowerSpectrum \<Rightarrow> failure \<times> PowerSpectrum + int \<times> PowerSpectrum" where
  "bandStep rate fftSize i nBins ps =
     (let row = resize 2 0 (bandBinIndices ps ! i);
          row = row[0 := binIndex (bandFreqsHz ps ! i) (fftSize ! i) rate];
          row = row[1 := binIndex (bandFreqsHz ps ! (i + 1)) (fftSize ! i) rate];
          ps = ps\<lparr>bandBinIndices := (bandBinIndices ps)[i := row]\<rparr>
      in if \<not> 0 < row ! 1 then Inl (EmptyBand i, ps)
         else
           let nyq = nyqIdx (fftSize ! i);
               row = (if row ! 0 = 0 then row[0 := 1] else row);
               row = (if nyq \<le> row ! 1 - 1 then row[1 := nyq] else row);
               nBins = nBins + (row ! 1 - row ! 0);
               refSquared = referenceValue ps * referenceValue ps;
               nf = normalisationFactor (normalisation ps) (fftSize ! i) (windowSizes ps ! i) refSquared
           in Inr (nBins, ps\<lparr>bandBinIndices := (bandBinIndices ps)[i := row],
                              normFactor := (normFactor ps)[i := nf]\<rparr>))"

text \<open>Lines 75 to 120: the loop over the bands, from band \<open>i\<close> on.\<close>

function bandLoop ::
  "int \<Rightarrow> int list \<Rightarrow> nat \<Rightarrow> nat \<Rightarrow> int \<Rightarrow> PowerSpectrum \<Rightarrow> failure \<times> PowerSpectrum + int \<times> PowerSpectrum" where
  "bandLoop rate fftSize nWindows i nBins ps =
     (if i < nWindows
      then (case bandStep rate fftSize i nBins ps of
              Inl err \<Rightarrow> Inl err
            | Inr (nBins', ps') \<Rightarrow> bandLoop rate fftSize nWindows (Suc i) nBins' ps')
      else Inr (nBins, ps))"
  by pat_completeness auto
termination
  by (relation "measure (\<lambda>(rate, fftSize, nWindows, i, nBins, ps). nWindows - i)") auto

text \<open>
  Lines 135 and 136: the inner loop that stores the centre frequency of the bins
  \<open>j, j + 1, ...\<close> below \<open>hi\<close> at the output channels \<open>k, k + 1, ...\<close>; it returns the next
  free output channel. The product \<^verbatim>\<open>(j++)*fs\<close> is an \<^verbatim>\<open>int\<close> product, divided by the size
  as a double.
\<close>

function centreFreqWhile :: "int \<Rightarrow> int \<Rightarrow> int \<Rightarrow> int \<Rightarrow> int \<Rightarrow> SignalBank \<Rightarrow> int \<times> SignalBank" where
  "centreFreqWhile rate n hi j k bank =
     (if j < hi
      then centreFreqWhile rate n hi (j + 1) (k + 1)
             (setCentreFreq k (of_int (c_int (j * rate)) / of_int n) bank)
      else (k, bank))"
  by pat_completeness auto
termination
  by (relation "measure (\<lambda>(rate, n, hi, j, k, bank). nat (hi - j))") auto

text \<open>Lines 132 to 143: the loop over the bands that fills in the centre frequencies.\<close>

function centreFreqLoop ::
  "int \<Rightarrow> int list \<Rightarrow> int list list \<Rightarrow> nat \<Rightarrow> nat \<Rightarrow> int \<Rightarrow> SignalBank \<Rightarrow> SignalBank" where
  "centreFreqLoop rate fftSize bins nWindows i k bank =
     (if i < nWindows
      then (case centreFreqWhile rate (fftSize ! i) (bins ! i ! 1) (bins ! i ! 0) k bank of
              (k', bank') \<Rightarrow> centreFreqLoop rate fftSize bins nWindows (Suc i) k' bank')
      else bank)"
  by pat_completeness auto
termination
  by (relation "measure (\<lambda>(rate, fftSize, bins, nWindows, i, k, bank). nWindows - i)") auto

text \<open>
  The result of a member function that can fail: the object after a normal return, or
  the failure together with the object as the aborted call leaves it.
\<close>

datatype result =
    is_Done: Done (object_of: PowerSpectrum)
  | Aborted (failure_of: failure) (object_of: PowerSpectrum)

text \<open>
  Lines 53 to 68: the local vector \<^verbatim>\<open>fftSize\<close> and the engines pushed onto the (cleared)
  member \<^verbatim>\<open>ffts_\<close>. With uniform sampling the code reads \<^verbatim>\<open>fftSize[0]\<close>, which does not
  exist when there is no window.
\<close>

definition fftSetup :: "SignalBank \<Rightarrow> PowerSpectrum \<Rightarrow> failure + int list \<times> FFT list" where
  "fftSetup input ps =
     (let nWindows = length (windowSizes ps);
          largestWindowSize = nSamples input;
          fftSize = replicate nWindows (nextPowerOfTwo largestWindowSize)
      in if sampleSpectrumUniformly ps
         then (if 0 < length fftSize
               then Inr (fftSize, ffts ps @ [FFT_initialize (new_FFT (fftSize ! 0))])
               else Inl OutOfBounds)
         else Inr (fftLoop (windowSizes ps) 0 fftSize (ffts ps)))"

definition initializeInternal :: "SignalBank \<Rightarrow> PowerSpectrum \<Rightarrow> result" where
  "initializeInternal input ps0 =
     (let ps = ps0\<lparr>ffts := []\<rparr>;
          nWindows = length (windowSizes ps)
      in if nChannels input \<noteq> int nWindows then Aborted ShapeMismatch ps
         else if int (length (bandFreqsHz ps)) \<noteq> int nWindows + 1 then Aborted ShapeMismatch ps
         else if anyAscendingValues (windowSizes ps) then Aborted InvalidParameter ps
         else
           (case fftSetup input ps of
              Inl err \<Rightarrow> Aborted err ps
            | Inr (fftSize, engines) \<Rightarrow>
                let ps = ps\<lparr>ffts := engines\<rparr>;
                    ps = ps\<lparr>bandBinIndices := resize nWindows [] (bandBinIndices ps)\<rparr>;
                    ps = ps\<lparr>normFactor := resize nWindows 0 (normFactor ps)\<rparr>;
                    rate = fs input
                in (case bandLoop rate fftSize nWindows 0 0 ps of
                      Inl (err, ps') \<Rightarrow> Aborted err ps'
                    | Inr (nBins, ps') \<Rightarrow>
                        let bank = SignalBank_initialize (nEars input) nBins 1 rate (outputBank ps');
                            bank = setFrameRate (frameRate input) bank;
                            bank = centreFreqLoop rate fftSize (bandBinIndices ps') nWindows 0 0 bank
                        in Done (ps'\<lparr>outputBank := bank\<rparr>))))"

subsection \<open>processInternal\<close>

text \<open>
  Lines 168 to 173: the loop over the bins of one band. \<open>getReal\<close> and \<open>getImag\<close> are
  the accessors of the FFT collaborator. The loop appends every power it stores
  through \<^verbatim>\<open>outputSignal\<close> to \<open>written\<close>, and every bin index it hands to the accessors
  (with the index of the engine) to \<open>reads\<close>.
\<close>

function binWhile ::
  "(FFT \<Rightarrow> int \<Rightarrow> Real) \<Rightarrow> (FFT \<Rightarrow> int \<Rightarrow> Real) \<Rightarrow> FFT \<Rightarrow> nat \<Rightarrow> Real \<Rightarrow> int \<Rightarrow> int \<Rightarrow>
   Real list \<times> (nat \<times> int) list \<Rightarrow> Real list \<times> (nat \<times> int) list" where
  "binWhile getReal getImag engine fftIdx nf hi bin (written, reads) =
     (if bin < hi
      then let re = getReal engine bin;
               im = getImag engine bin
           in binWhile getReal getImag engine fftIdx nf hi (bin + 1)
                (written @ [nf * (re * re + im * im)], reads @ [(fftIdx, bin)])
      else (written, reads))"
  by pat_completeness auto
termination
  by (relation "measure (\<lambda>(getReal, getImag, engine, fftIdx, nf, hi, bin, acc). nat (hi - bin))") auto

text \<open>
  Lines 157 to 174: the loop over the channels of one ear, from channel \<open>chn\<close> on. Its
  state is the local \<^verbatim>\<open>fftIdx\<close>, the engines, and what has been written and read so
  far. An element of \<^verbatim>\<open>ffts_\<close>, \<^verbatim>\<open>bandBinIndices_\<close> or \<^verbatim>\<open>normFactor_\<close> that the C++ would read
  but that does not exist ends the call with \<open>OutOfBounds\<close>.
\<close>

function chnLoop ::
  "(FFT \<Rightarrow> int \<Rightarrow> Real) \<Rightarrow> (FFT \<Rightarrow> int \<Rightarrow> Real) \<Rightarrow> SignalBank \<Rightarrow> PowerSpectrum \<Rightarrow> int \<Rightarrow> nat \<Rightarrow> nat \<Rightarrow>
   nat \<times> FFT list \<times> Real list \<times> (nat \<times> int) list \<Rightarrow>
   failure + nat \<times> FFT list \<times> Real list \<times> (nat \<times> int) list" where
  "chnLoop getReal getImag input ps ear nWindows chn (fftIdx, engines, written, reads) =
     (if chn < nWindows
      then let fftIdx = (if \<not> sampleSpectrumUniformly ps then chn else fftIdx)
           in if \<not> fftIdx < length engines then Inl OutOfBounds
              else if \<not> chn < length (bandBinIndices ps) then Inl OutOfBounds
              else if \<not> 1 < length (bandBinIndices ps ! chn) then Inl OutOfBounds
              else if bandBinIndices ps ! chn ! 0 < bandBinIndices ps ! chn ! 1
                      \<and> \<not> chn < length (normFactor ps) then Inl OutOfBounds
              else
                let engines = engines[fftIdx :=
                      FFT_process (signal input ear (int chn)) (windowSizes ps ! chn) (engines ! fftIdx)];
                    (written, reads) =
                      binWhile getReal getImag (engines ! fftIdx) fftIdx (normFactor ps ! chn)
                        (bandBinIndices ps ! chn ! 1) (bandBinIndices ps ! chn ! 0) (written, reads)
                in chnLoop getReal getImag input ps ear nWindows (Suc chn)
                     (fftIdx, engines, written, reads)
      else Inr (fftIdx, engines, written, reads))"
  by pat_completeness auto
termination
  by (relation "measure (\<lambda>(getReal, getImag, input, ps, ear, nWindows, chn, st). nWindows - chn)") auto

text \<open>
  Lines 152 to 175: the loop over the ears, from ear \<open>ear\<close> on. Every ear starts a new
  write pointer at the first sample of its output block; \<open>spectra\<close> collects, ear by
  ear, the sequence of values written through that pointer.
\<close>

function earLoop ::
  "(FFT \<Rightarrow> int \<Rightarrow> Real) \<Rightarrow> (FFT \<Rightarrow> int \<Rightarrow> Real) \<Rightarrow> SignalBank \<Rightarrow> PowerSpectrum \<Rightarrow> nat \<Rightarrow> nat \<Rightarrow>
   nat \<times> FFT list \<times> Real list list \<times> (nat \<times> int) list \<Rightarrow>
   failure + nat \<times> FFT list \<times> Real list list \<times> (nat \<times> int) list" where
  "earLoop getReal getImag input ps nWindows ear (fftIdx, engines, spectra, reads) =
     (if int ear < nEars input
      then (case chnLoop getReal getImag input ps (int ear) nWindows 0 (fftIdx, engines, [], reads) of
              Inl err \<Rightarrow> Inl err
            | Inr (fftIdx', engines', written, reads') \<Rightarrow>
                earLoop getReal getImag input ps nWindows (Suc ear)
                  (fftIdx', engines', spectra @ [written], reads'))
      else Inr (fftIdx, engines, spectra, reads))"
  by pat_completeness auto
termination
  by (relation "measure (\<lambda>(getReal, getImag, input, ps, nWindows, ear, st). nat (nEars input) - ear)") auto

text \<open>
  What one call of \<^verbatim>\<open>processInternal\<close> leaves behind: the object (its engines hold the
  frames they were given), for every ear the values written to the output in order,
  and the bins read from the engines in order.
\<close>

record Processed =
  object :: PowerSpectrum
  spectrum :: "Real list list"
  binReads :: "(nat \<times> int) list"

definition processInternal ::
  "(FFT \<Rightarrow> int \<Rightarrow> Real) \<Rightarrow> (FFT \<Rightarrow> int \<Rightarrow> Real) \<Rightarrow> SignalBank \<Rightarrow> PowerSpectrum \<Rightarrow> failure + Processed" where
  "processInternal getReal getImag input ps =
     (let fftIdx = 0;
          nWindows = length (windowSizes ps)
      in case earLoop getReal getImag input ps nWindows 0 (fftIdx, ffts ps, [], []) of
           Inl err \<Rightarrow> Inl err
         | Inr (fftIdx', engines, spectra, reads) \<Rightarrow>
             Inr \<lparr>object = ps\<lparr>ffts := engines\<rparr>, spectrum = spectra, binReads = reads\<rparr>)"

subsection \<open>Derived quantities used to state the properties\<close>

text \<open>
  Lines 80 and 88 to 92: the lower bin of band \<open>i\<close> after the DC exclusion, and lines 82
  and 93 to 98: its upper bin after the Nyquist exclusion, as functions of the sample
  rate, the vector \<^verbatim>\<open>fftSize\<close> and the band edges.
\<close>

definition loBin :: "int \<Rightarrow> int list \<Rightarrow> Real list \<Rightarrow> nat \<Rightarrow> int" where
  "loBin rate fftSize edges i =
     (let lo = binIndex (edges ! i) (fftSize ! i) rate in if lo = 0 then 1 else lo)"

definition hiBin :: "int \<Rightarrow> int list \<Rightarrow> Real list \<Rightarrow> nat \<Rightarrow> int" where
  "hiBin rate fftSize edges i =
     (let hi = binIndex (edges ! (i + 1)) (fftSize ! i) rate
      in if nyqIdx (fftSize ! i) \<le> hi - 1 then nyqIdx (fftSize ! i) else hi)"

text \<open>
  The vector \<^verbatim>\<open>fftSize\<close> that lines 53 to 68 compute: one size for all windows with
  uniform sampling, and the size for each window otherwise.
\<close>

definition fftSizes :: "SignalBank \<Rightarrow> PowerSpectrum \<Rightarrow> int list" where
  "fftSizes input ps =
     (if sampleSpectrumUniformly ps
      then replicate (length (windowSizes ps)) (nextPowerOfTwo (nSamples input))
      else map (\<lambda>w. nextPowerOfTwo w) (windowSizes ps))"

text \<open>
  The loop of lines 157 to 174, iteration \<open>chn\<close>: the value of \<^verbatim>\<open>fftIdx\<close> (lines 150, 159
  and 160), the selected engine once line 163 has given it the frame of ear \<open>ear\<close> and
  channel \<open>chn\<close>, the powers that lines 167 to 173 store for the channel, and the bins they
  read.
\<close>

definition engineIndex :: "PowerSpectrum \<Rightarrow> nat \<Rightarrow> nat" where
  "engineIndex ps chn = (if sampleSpectrumUniformly ps then 0 else chn)"

definition loadedEngine :: "SignalBank \<Rightarrow> PowerSpectrum \<Rightarrow> int \<Rightarrow> nat \<Rightarrow> FFT" where
  "loadedEngine frame ps ear chn =
     FFT_process (signal frame ear (int chn)) (windowSizes ps ! chn) (ffts ps ! engineIndex ps chn)"

definition bandPowers ::
  "(FFT \<Rightarrow> int \<Rightarrow> Real) \<Rightarrow> (FFT \<Rightarrow> int \<Rightarrow> Real) \<Rightarrow> SignalBank \<Rightarrow> PowerSpectrum \<Rightarrow> int \<Rightarrow> nat \<Rightarrow> Real list" where
  "bandPowers getReal getImag frame ps ear chn =
     map (\<lambda>k. normFactor ps ! chn
                * (getReal (loadedEngine frame ps ear chn) k * getReal (loadedEngine frame ps ear chn) k
                   + getImag (loadedEngine frame ps ear chn) k * getImag (loadedEngine frame ps ear chn) k))
       [bandBinIndices ps ! chn ! 0..bandBinIndices ps ! chn ! 1 - 1]"

definition bandReads :: "PowerSpectrum \<Rightarrow> nat \<Rightarrow> (nat \<times> int) list" where
  "bandReads ps chn =
     map (\<lambda>k. (engineIndex ps chn, k)) [bandBinIndices ps ! chn ! 0..bandBinIndices ps ! chn ! 1 - 1]"

text \<open>Two engines that differ at most in the frame they hold.\<close>

definition sameEngine :: "FFT \<Rightarrow> FFT \<Rightarrow> bool" where
  "sameEngine e e' = (FFT_process [] 0 e = FFT_process [] 0 e')"

subsection \<open>Concrete objects and frames\<close>

text \<open>
  The objects and input banks at which the properties below are instantiated. The first
  is the end-to-end scenario of the spec: two channels, windows of 1024 and 256 samples,
  band edges 20, 1000 and 8000 Hz, a sample rate of 32000 Hz, one engine per channel.
\<close>

definition exampleInput :: SignalBank where
  "exampleInput =
     \<lparr>nEars = 2, nChannels = 2, nSamples = 1024, fs = 32000, frameRate = 125 / 4,
      centreFreqs = Map.empty, signal = (\<lambda>ear chn. replicate 1024 0)\<rparr>"

definition exampleSpectrum :: PowerSpectrum where
  "exampleSpectrum = new_PowerSpectrum [20, 1000, 8000] [1024, 256] False"

text \<open>The same with a lowest edge of 0 Hz, so that the first band starts at the DC bin.\<close>

definition dcSpectrum :: PowerSpectrum where
  "dcSpectrum = new_PowerSpectrum [0, 1000, 8000] [1024, 256] False"

text \<open>
  A first band from 0 to 15.625 Hz: at 31.25 Hz per bin its bins are \<open>ceil 0 = 0\<close> and
  \<open>ceil 0.5 = 1\<close>, both exact in double precision.
\<close>

definition narrowSpectrum :: PowerSpectrum where
  "narrowSpectrum = new_PowerSpectrum [0, 125 / 8, 8000] [1024, 256] False"

text \<open>A lowest edge below 0 Hz.\<close>

definition negativeSpectrum :: PowerSpectrum where
  "negativeSpectrum = new_PowerSpectrum [- 32000, 1000, 8000] [1024, 256] False"

text \<open>Uniform sampling, and an input bank whose frames are shorter than the windows.\<close>

definition uniformSpectrum :: PowerSpectrum where
  "uniformSpectrum = new_PowerSpectrum [20, 1000, 8000] [1024, 256] True"

definition shortInput :: SignalBank where
  "shortInput = exampleInput\<lparr>nSamples := 100, signal := (\<lambda>ear chn. replicate 100 0)\<rparr>"

text \<open>An upper edge of 0 Hz for the second band, and windows in ascending order.\<close>

definition emptyBandSpectrum :: PowerSpectrum where
  "emptyBandSpectrum = new_PowerSpectrum [20, 1000, 0] [1024, 256] False"

definition ascendingSpectrum :: PowerSpectrum where
  "ascendingSpectrum = new_PowerSpectrum [20, 1000, 8000] [512, 1024] False"

text \<open>Accessors of an engine that read 0 at every bin, for the concrete runs.\<close>

definition zeroAccessor :: "FFT \<Rightarrow> int \<Rightarrow> Real" where
  "zeroAccessor engine bin = 0"

text \<open>
  Band edges out of order: the first band runs from 1000 Hz down to 20 Hz.
\<close>

definition swappedSpectrum :: PowerSpectrum where
  "swappedSpectrum = new_PowerSpectrum [1000, 20, 8000] [1024, 256] False"

text \<open>
  One channel with a window of 49152 samples (1.5 s at 32000 Hz), whose FFT size is
  65536, and an input bank with frames of that length.
\<close>

definition longWindowSpectrum :: PowerSpectrum where
  "longWindowSpectrum = new_PowerSpectrum [20, 8000] [49152] False"

definition longInput :: SignalBank where
  "longInput = exampleInput\<lparr>nChannels := 1, nSamples := 49152,
     signal := (\<lambda>ear chn. replicate 49152 0)\<rparr>"

text \<open>An input bank with three channels, for an object with two windows.\<close>

definition wideInput :: SignalBank where
  "wideInput = exampleInput\<lparr>nChannels := 3\<rparr>"

section \<open>Properties\<close>

declare nextPowerOfTwoFrom.simps [simp del]
declare fftLoop.simps [simp del]
declare bandLoop.simps [simp del]
declare centreFreqWhile.simps [simp del]
declare centreFreqLoop.simps [simp del]
declare binWhile.simps [simp del]
declare chnLoop.simps [simp del]
declare earLoop.simps [simp del]

subsection \<open>The helper functions\<close>

lemma resize_length: "length (resize n d xs) = n"
  by (simp add: resize_def)

lemma nextPowerOfTwoFrom_inv:
  "p = 2 ^ k \<Longrightarrow> (k = 0 \<or> 2 ^ (k - 1) < n) \<Longrightarrow>
   \<exists>m. nextPowerOfTwoFrom p n = 2 ^ m \<and> n \<le> 2 ^ m \<and> (m = 0 \<or> (2::int) ^ (m - 1) < n)"
proof (induction p n arbitrary: k rule: nextPowerOfTwoFrom.induct)
  case (1 p n)
  show ?case
  proof (cases "0 < p \<and> p < n")
    case True
    have "2 * p = 2 ^ Suc k" using "1.prems"(1) by simp
    moreover have "Suc k = 0 \<or> (2::int) ^ (Suc k - 1) < n" using True "1.prems"(1) by simp
    ultimately have "\<exists>m. nextPowerOfTwoFrom (2 * p) n = 2 ^ m \<and> n \<le> 2 ^ m \<and> (m = 0 \<or> (2::int) ^ (m - 1) < n)"
      using "1.IH" [OF True] by blast
    then show ?thesis using True by (subst nextPowerOfTwoFrom.simps) simp
  next
    case False
    have "0 < p" using "1.prems"(1) by simp
    then have "n \<le> p" using False by simp
    then show ?thesis using False "1.prems" by (subst nextPowerOfTwoFrom.simps) auto
  qed
qed

lemma nextPowerOfTwo_shape:
  "\<exists>m. nextPowerOfTwo n = 2 ^ m \<and> n \<le> 2 ^ m \<and> (m = 0 \<or> (2::int) ^ (m - 1) < n)"
  unfolding nextPowerOfTwo_def using nextPowerOfTwoFrom_inv [of 1 0 n] by simp

lemma nextPowerOfTwo_pos: "0 < nextPowerOfTwo n"
  using nextPowerOfTwo_shape [of n] by auto

lemma nextPowerOfTwo_ge: "n \<le> nextPowerOfTwo n"
  using nextPowerOfTwo_shape [of n] by auto

lemma nextPowerOfTwo_least: "n \<le> 2 ^ j \<Longrightarrow> nextPowerOfTwo n \<le> 2 ^ j"
proof -
  assume a: "n \<le> 2 ^ j"
  obtain m where m: "nextPowerOfTwo n = 2 ^ m" "m = 0 \<or> (2::int) ^ (m - 1) < n"
    using nextPowerOfTwo_shape [of n] by blast
  show ?thesis
  proof (cases "m = 0")
    case True
    then show ?thesis using m by simp
  next
    case False
    then have "(2::int) ^ (m - 1) < n" using m by blast
    then have "(2::int) ^ (m - 1) < 2 ^ j" using a by linarith
    then have "m - 1 < j" by (rule power_less_imp_less_exp [rotated]) simp
    then have "m \<le> j" by simp
    then show ?thesis using m by simp
  qed
qed

lemma nextPowerOfTwo_smallest:
  "(\<exists>k. nextPowerOfTwo m = 2 ^ k) \<and> m \<le> nextPowerOfTwo m
     \<and> (\<forall>j. m \<le> 2 ^ j \<longrightarrow> nextPowerOfTwo m \<le> 2 ^ j)"
  using nextPowerOfTwo_shape [of m] nextPowerOfTwo_ge [of m] nextPowerOfTwo_least [of m]
  by blast

lemma anyAscendingValues_iff:
  "anyAscendingValues ws \<longleftrightarrow> (\<exists>i. Suc i < length ws \<and> ws ! i < ws ! Suc i)"
proof (induction ws rule: anyAscendingValues.induct)
  case (1 x y zs)
  have "(\<exists>i. Suc i < length (x # y # zs) \<and> (x # y # zs) ! i < (x # y # zs) ! Suc i)
        \<longleftrightarrow> x < y \<or> (\<exists>i. Suc i < length (y # zs) \<and> (y # zs) ! i < (y # zs) ! Suc i)"
    (is "?L \<longleftrightarrow> ?R")
  proof
    assume ?L
    then obtain i where i: "Suc i < length (x # y # zs)" "(x # y # zs) ! i < (x # y # zs) ! Suc i"
      by blast
    show ?R
    proof (cases i)
      case 0 then show ?thesis using i by simp
    next
      case (Suc j) then show ?thesis using i by auto
    qed
  next
    assume ?R
    then show ?L
    proof
      assume "x < y"
      then show ?L by (intro exI [of _ 0]) simp
    next
      assume "\<exists>i. Suc i < length (y # zs) \<and> (y # zs) ! i < (y # zs) ! Suc i"
      then obtain j where "Suc j < length (y # zs)" "(y # zs) ! j < (y # zs) ! Suc j" by blast
      then show ?L by (intro exI [of _ "Suc j"]) simp
    qed
  qed
  then show ?case using 1 by simp
qed simp_all

lemma fftLoop_eq:
  "length fftSize = length windows \<Longrightarrow> w \<le> length windows \<Longrightarrow>
   fftLoop windows w fftSize engines =
     (take w fftSize @ map nextPowerOfTwo (drop w windows),
      engines @ map (\<lambda>x. FFT_initialize (new_FFT (nextPowerOfTwo x))) (drop w windows))"
proof (induction windows w fftSize engines rule: fftLoop.induct)
  case (1 windows w fftSize engines)
  show ?case
  proof (cases "w < length windows")
    case True
    have d: "drop w windows = windows ! w # drop (Suc w) windows"
      using True by (simp add: Cons_nth_drop_Suc)
    have t: "take (Suc w) (fftSize[w := nextPowerOfTwo (windows ! w)]) = take w fftSize @ [nextPowerOfTwo (windows ! w)]"
      using True "1.prems" by (simp add: take_Suc_conv_app_nth)
    show ?thesis
      using True "1.prems" "1.IH" [OF True refl]
      by (subst fftLoop.simps) (simp add: d t Let_def)
  next
    case False
    then show ?thesis using "1.prems" by (subst fftLoop.simps) simp
  qed
qed

lemma fftSetup_sizes:
  "fftSetup input ps = Inr (fftSize, engines) \<Longrightarrow>
   fftSize = (if sampleSpectrumUniformly ps
              then replicate (length (windowSizes ps)) (nextPowerOfTwo (nSamples input))
              else map nextPowerOfTwo (windowSizes ps))
   \<and> engines = ffts ps @ map (\<lambda>n. FFT_initialize (new_FFT n))
        (if sampleSpectrumUniformly ps then [nextPowerOfTwo (nSamples input)] else fftSize)"
  by (auto simp: fftSetup_def Let_def fftLoop_eq split: if_splits)

lemma fftSetup_fftSizes:
  "fftSetup input ps = Inr (F, engines) \<Longrightarrow> F = fftSizes input ps"
  by (drule fftSetup_sizes) (simp add: fftSizes_def)

lemma fftSetup_total:
  "sampleSpectrumUniformly ps \<longrightarrow> 0 < length (windowSizes ps) \<Longrightarrow>
   \<exists>engines. fftSetup input ps = Inr (fftSizes input ps, engines)"
  by (auto simp: fftSetup_def fftSizes_def Let_def fftLoop_eq)

lemma fftSizes_clear [simp]: "fftSizes input (ps\<lparr>ffts := e\<rparr>) = fftSizes input ps"
  by (simp add: fftSizes_def)

lemma fftSizes_mode [simp]: "fftSizes input (ps\<lparr>normalisation := m\<rparr>) = fftSizes input ps"
  by (simp add: fftSizes_def)

lemma fftSizes_nth:
  "j < length (windowSizes ps) \<Longrightarrow>
   fftSizes input ps ! j =
     (if sampleSpectrumUniformly ps then nextPowerOfTwo (nSamples input)
      else nextPowerOfTwo (windowSizes ps ! j))"
  by (simp add: fftSizes_def)

lemma fftSizes_pos: "j < length (windowSizes ps) \<Longrightarrow> 0 < fftSizes input ps ! j"
  by (simp add: fftSizes_nth nextPowerOfTwo_pos)

lemma nyqIdx_nonneg: "0 \<le> n \<Longrightarrow> nyqIdx n = n div 2 + (if odd n then 1 else 0)"
  by (auto simp: nyqIdx_def c_div_def c_mod_def sgn_if not_less odd_iff_mod_2_eq_one)

lemma nyqIdx_pos: "0 < n \<Longrightarrow> 1 \<le> nyqIdx n"
proof -
  assume n: "0 < n"
  then have "nyqIdx n = n div 2 + (if odd n then 1 else 0)" by (simp add: nyqIdx_nonneg)
  then show ?thesis using n by (auto elim: evenE)
qed

lemma hiBin_le_nyqIdx: "hiBin rate F edges i \<le> nyqIdx (F ! i)"
  by (simp add: hiBin_def Let_def)

lemma binIndex_half_open:
  assumes "0 < n" and "0 < rate"
  shows "(binIndex lo n rate \<le> k \<and> k < binIndex hi n rate)
     = (lo \<le> of_int k * of_int rate / of_int n \<and> of_int k * of_int rate / of_int n < hi)"
proof -
  have n: "(0::real) < of_int n" and r: "(0::real) < of_int rate" using assms by simp_all
  have a: "binIndex lo n rate \<le> k \<longleftrightarrow> lo \<le> of_int k * of_int rate / of_int n"
    unfolding binIndex_def ceiling_le_iff using n r by (simp add: field_simps)
  have b: "k < binIndex hi n rate \<longleftrightarrow> of_int k * of_int rate / of_int n < hi"
    unfolding binIndex_def less_ceiling_iff using n r by (simp add: field_simps)
  show ?thesis unfolding a b ..
qed

lemma is_Done_object: "is_Done r \<Longrightarrow> r = Done (object_of r)"
  by (cases r) simp_all

lemma Inr_projr: "x = Inr r \<Longrightarrow> \<not> isl x \<and> projr x = r"
  by simp

lemma in_concat_map: "x \<in> set (f a) \<Longrightarrow> a \<in> set as \<Longrightarrow> x \<in> set (concat (map f as))"
  by auto

lemma c_int_in_range: "- (2 ^ 31) \<le> x \<Longrightarrow> x < 2 ^ 31 \<Longrightarrow> c_int x = x"
  by (simp add: c_int_def)

subsection \<open>The loop over the bands\<close>

lemma bandStep_eq:
  "bandStep rate F i nb ps =
     (let lo = binIndex (bandFreqsHz ps ! i) (F ! i) rate;
          hi = binIndex (bandFreqsHz ps ! (i + 1)) (F ! i) rate
      in if \<not> 0 < hi
         then Inl (EmptyBand i, ps\<lparr>bandBinIndices := (bandBinIndices ps)[i := [lo, hi]]\<rparr>)
         else Inr (nb + (hiBin rate F (bandFreqsHz ps) i - loBin rate F (bandFreqsHz ps) i),
                   ps\<lparr>bandBinIndices := (bandBinIndices ps)
                          [i := [loBin rate F (bandFreqsHz ps) i, hiBin rate F (bandFreqsHz ps) i]],
                      normFactor := (normFactor ps)
                          [i := normalisationFactor (normalisation ps) (F ! i) (windowSizes ps ! i)
                                  (referenceValue ps * referenceValue ps)]\<rparr>))"
proof -
  have "length (resize 2 (0::int) (bandBinIndices ps ! i)) = 2" by (simp add: resize_def)
  then obtain x y where r: "resize 2 (0::int) (bandBinIndices ps ! i) = [x, y]"
    by (cases "resize 2 (0::int) (bandBinIndices ps ! i)"; simp; rename_tac u us; case_tac us; simp)
  show ?thesis
    unfolding bandStep_def loBin_def hiBin_def r by (simp add: Let_def)
qed

lemma bandStep_Inr:
  assumes "bandStep rate F i nb ps = Inr (nb', ps')"
  shows "0 < binIndex (bandFreqsHz ps ! (i + 1)) (F ! i) rate"
    and "nb' = nb + (hiBin rate F (bandFreqsHz ps) i - loBin rate F (bandFreqsHz ps) i)"
    and "ps' = ps\<lparr>bandBinIndices := (bandBinIndices ps)
                          [i := [loBin rate F (bandFreqsHz ps) i, hiBin rate F (bandFreqsHz ps) i]],
                      normFactor := (normFactor ps)
                          [i := normalisationFactor (normalisation ps) (F ! i) (windowSizes ps ! i)
                                  (referenceValue ps * referenceValue ps)]\<rparr>"
  using assms unfolding bandStep_eq by (simp_all add: Let_def split: if_splits)

lemma bandStep_Inl:
  assumes "bandStep rate F i nb ps = Inl (err, ps')"
  shows "\<not> 0 < binIndex (bandFreqsHz ps ! (i + 1)) (F ! i) rate"
    and "err = EmptyBand i"
    and "ps' = ps\<lparr>bandBinIndices := (bandBinIndices ps)
           [i := [binIndex (bandFreqsHz ps ! i) (F ! i) rate,
                  binIndex (bandFreqsHz ps ! (i + 1)) (F ! i) rate]]\<rparr>"
  using assms unfolding bandStep_eq by (simp_all add: Let_def split: if_splits)

lemma bandLoop_unfold:
  "i < n \<Longrightarrow> bandLoop rate F n i nb ps =
     (case bandStep rate F i nb ps of
        Inl err \<Rightarrow> Inl err
      | Inr (nb1, ps1) \<Rightarrow> bandLoop rate F n (Suc i) nb1 ps1)"
  "\<not> i < n \<Longrightarrow> bandLoop rate F n i nb ps = Inr (nb, ps)"
  by (subst bandLoop.simps, simp)+

lemma bandLoop_Inr_step:
  assumes "bandLoop rate F n i nb ps = Inr (nb', ps')" and "i < n"
  obtains nb1 ps1 where "bandStep rate F i nb ps = Inr (nb1, ps1)"
    and "bandLoop rate F n (Suc i) nb1 ps1 = Inr (nb', ps')"
  using assms by (simp add: bandLoop_unfold split: sum.splits prod.splits)

lemma bandLoop_state:
  "bandLoop rate F n i nb ps = Inr (nb', ps') \<Longrightarrow>
   length (bandBinIndices ps) = n \<Longrightarrow> length (normFactor ps) = n \<Longrightarrow>
   ps' = ps\<lparr>bandBinIndices := take i (bandBinIndices ps)
               @ map (\<lambda>j. [loBin rate F (bandFreqsHz ps) j, hiBin rate F (bandFreqsHz ps) j]) [i..<n],
            normFactor := take i (normFactor ps)
               @ map (\<lambda>j. normalisationFactor (normalisation ps) (F ! j) (windowSizes ps ! j)
                            (referenceValue ps * referenceValue ps)) [i..<n]\<rparr>"
proof (induction rate F n i nb ps rule: bandLoop.induct)
  case (1 rate F n i nb ps)
  show ?case
  proof (cases "i < n")
    case False
    then show ?thesis using "1.prems" by (simp add: bandLoop_unfold)
  next
    case True
    from "1.prems"(1) True obtain nb1 ps1 where step: "bandStep rate F i nb ps = Inr (nb1, ps1)"
      and rest: "bandLoop rate F n (Suc i) nb1 ps1 = Inr (nb', ps')"
      by (rule bandLoop_Inr_step)
    note s = bandStep_Inr(3) [OF step]
    have same: "bandFreqsHz ps1 = bandFreqsHz ps" "normalisation ps1 = normalisation ps"
      "windowSizes ps1 = windowSizes ps" "referenceValue ps1 = referenceValue ps"
      and len: "length (bandBinIndices ps1) = n" "length (normFactor ps1) = n"
      using s "1.prems"(2,3) by simp_all
    have upt: "[i..<n] = i # [Suc i..<n]" using True by (simp add: upt_conv_Cons)
    have t1: "take (Suc i) (bandBinIndices ps1) = take i (bandBinIndices ps)
        @ [[loBin rate F (bandFreqsHz ps) i, hiBin rate F (bandFreqsHz ps) i]]"
      using s True "1.prems"(2) by (simp add: take_Suc_conv_app_nth)
    have t2: "take (Suc i) (normFactor ps1) = take i (normFactor ps)
        @ [normalisationFactor (normalisation ps) (F ! i) (windowSizes ps ! i)
                            (referenceValue ps * referenceValue ps)]"
      using s True "1.prems"(3) by (simp add: take_Suc_conv_app_nth)
    have "ps' = ps1\<lparr>bandBinIndices := take (Suc i) (bandBinIndices ps1)
               @ map (\<lambda>j. [loBin rate F (bandFreqsHz ps) j, hiBin rate F (bandFreqsHz ps) j]) [Suc i..<n],
            normFactor := take (Suc i) (normFactor ps1)
               @ map (\<lambda>j. normalisationFactor (normalisation ps) (F ! j) (windowSizes ps ! j)
                            (referenceValue ps * referenceValue ps)) [Suc i..<n]\<rparr>"
      using "1.IH" [OF True step refl rest len] unfolding same .
    then show ?thesis unfolding t1 t2 upt by (simp add: s)
  qed
qed

lemma bandLoop_nBins:
  "bandLoop rate F n i nb ps = Inr (nb', ps') \<Longrightarrow>
   nb' = nb + sum_list (map (\<lambda>j. hiBin rate F (bandFreqsHz ps) j - loBin rate F (bandFreqsHz ps) j) [i..<n])"
proof (induction rate F n i nb ps rule: bandLoop.induct)
  case (1 rate F n i nb ps)
  show ?case
  proof (cases "i < n")
    case False
    then show ?thesis using "1.prems" by (simp add: bandLoop_unfold)
  next
    case True
    from "1.prems"(1) True obtain nb1 ps1 where step: "bandStep rate F i nb ps = Inr (nb1, ps1)"
      and rest: "bandLoop rate F n (Suc i) nb1 ps1 = Inr (nb', ps')"
      by (rule bandLoop_Inr_step)
    have same: "bandFreqsHz ps1 = bandFreqsHz ps"
      using bandStep_Inr(3) [OF step] by simp
    have upt: "[i..<n] = i # [Suc i..<n]" using True by (simp add: upt_conv_Cons)
    show ?thesis
      using "1.IH" [OF True step refl rest] bandStep_Inr(2) [OF step]
      unfolding same upt by simp
  qed
qed

lemma bandLoop_upper_positive:
  "bandLoop rate F n i nb ps = Inr (nb', ps') \<Longrightarrow> i \<le> j \<Longrightarrow> j < n \<Longrightarrow>
   0 < binIndex (bandFreqsHz ps ! (j + 1)) (F ! j) rate"
proof (induction rate F n i nb ps rule: bandLoop.induct)
  case (1 rate F n i nb ps)
  have True: "i < n" using "1.prems" by simp
  from "1.prems"(1) True obtain nb1 ps1 where step: "bandStep rate F i nb ps = Inr (nb1, ps1)"
    and rest: "bandLoop rate F n (Suc i) nb1 ps1 = Inr (nb', ps')"
    by (rule bandLoop_Inr_step)
  have same: "bandFreqsHz ps1 = bandFreqsHz ps"
    using bandStep_Inr(3) [OF step] by simp
  show ?case
  proof (cases "j = i")
    case True
    then show ?thesis using bandStep_Inr(1) [OF step] by simp
  next
    case False
    then have "Suc i \<le> j" using "1.prems"(2) by simp
    then show ?thesis
      using "1.IH" [OF True step refl rest _ "1.prems"(3)] unfolding same by simp
  qed
qed

lemma bandLoop_total:
  "(\<forall>j. i \<le> j \<and> j < n \<longrightarrow> 0 < binIndex (bandFreqsHz ps ! (j + 1)) (F ! j) rate) \<Longrightarrow>
   \<exists>nb' ps'. bandLoop rate F n i nb ps = Inr (nb', ps')"
proof (induction rate F n i nb ps rule: bandLoop.induct)
  case (1 rate F n i nb ps)
  show ?case
  proof (cases "i < n")
    case False
    then show ?thesis by (simp add: bandLoop_unfold)
  next
    case True
    then have pos: "0 < binIndex (bandFreqsHz ps ! (i + 1)) (F ! i) rate" using "1.prems" by simp
    obtain nb1 ps1 where step: "bandStep rate F i nb ps = Inr (nb1, ps1)"
      using pos by (simp add: bandStep_eq Let_def)
    have same: "bandFreqsHz ps1 = bandFreqsHz ps"
      using bandStep_Inr(3) [OF step] by simp
    have "\<exists>nb' ps'. bandLoop rate F n (Suc i) nb1 ps1 = Inr (nb', ps')"
      using "1.IH" [OF True step refl] "1.prems" unfolding same by simp
    then show ?thesis using True step by (simp add: bandLoop_unfold)
  qed
qed

lemma bandLoop_Inl:
  "bandLoop rate F n i nb ps = Inl (err, ps') \<Longrightarrow>
   \<exists>j. i \<le> j \<and> j < n \<and> err = EmptyBand j
     \<and> \<not> 0 < binIndex (bandFreqsHz ps ! (j + 1)) (F ! j) rate
     \<and> (\<forall>k. i \<le> k \<and> k < j \<longrightarrow> 0 < binIndex (bandFreqsHz ps ! (k + 1)) (F ! k) rate)"
proof (induction rate F n i nb ps rule: bandLoop.induct)
  case (1 rate F n i nb ps)
  have True: "i < n" using "1.prems" by (cases "i < n") (simp_all add: bandLoop_unfold)
  show ?case
  proof (cases "bandStep rate F i nb ps")
    case (Inl a)
    then have a: "a = (err, ps')" using "1.prems" True by (simp add: bandLoop_unfold)
    have "\<not> 0 < binIndex (bandFreqsHz ps ! (i + 1)) (F ! i) rate" "err = EmptyBand i"
      using bandStep_Inl [OF Inl [unfolded a]] by simp_all
    then show ?thesis using True by (intro exI [of _ i]) auto
  next
    case (Inr b)
    obtain nb1 ps1 where b: "b = (nb1, ps1)" by (cases b)
    have step: "bandStep rate F i nb ps = Inr (nb1, ps1)" using Inr b by simp
    have rest: "bandLoop rate F n (Suc i) nb1 ps1 = Inl (err, ps')"
      using "1.prems" True step by (simp add: bandLoop_unfold)
    have same: "bandFreqsHz ps1 = bandFreqsHz ps"
      using bandStep_Inr(3) [OF step] by simp
    from "1.IH" [OF True step refl rest, unfolded same]
    obtain j where j: "Suc i \<le> j" "j < n" "err = EmptyBand j"
      "\<not> 0 < binIndex (bandFreqsHz ps ! (j + 1)) (F ! j) rate"
      "\<forall>k. Suc i \<le> k \<and> k < j \<longrightarrow> 0 < binIndex (bandFreqsHz ps ! (k + 1)) (F ! k) rate"
      by blast
    have "\<forall>k. i \<le> k \<and> k < j \<longrightarrow> 0 < binIndex (bandFreqsHz ps ! (k + 1)) (F ! k) rate"
    proof (intro allI impI)
      fix k assume k: "i \<le> k \<and> k < j"
      show "0 < binIndex (bandFreqsHz ps ! (k + 1)) (F ! k) rate"
      proof (cases "k = i")
        case True then show ?thesis using bandStep_Inr(1) [OF step] by simp
      next
        case False then show ?thesis using j(5) k by simp
      qed
    qed
    then show ?thesis using j by (intro exI [of _ j]) simp
  qed
qed

lemma bandLoop_Inl_frame:
  "bandLoop rate F n i nb ps = Inl (err, ps') \<Longrightarrow>
   \<exists>rows. ps' = ps\<lparr>bandBinIndices := rows, normFactor := normFactor ps'\<rparr>"
proof (induction rate F n i nb ps rule: bandLoop.induct)
  case (1 rate F n i nb ps)
  have True: "i < n" using "1.prems" by (cases "i < n") (simp_all add: bandLoop_unfold)
  show ?case
  proof (cases "bandStep rate F i nb ps")
    case (Inl a)
    then have a: "a = (err, ps')" using "1.prems" True by (simp add: bandLoop_unfold)
    show ?thesis using bandStep_Inl(3) [OF Inl [unfolded a]] by auto
  next
    case (Inr b)
    obtain nb1 ps1 where b: "b = (nb1, ps1)" by (cases b)
    have step: "bandStep rate F i nb ps = Inr (nb1, ps1)" using Inr b by simp
    have rest: "bandLoop rate F n (Suc i) nb1 ps1 = Inl (err, ps')"
      using "1.prems" True step by (simp add: bandLoop_unfold)
    from "1.IH" [OF True step refl rest]
    obtain rows where "ps' = ps1\<lparr>bandBinIndices := rows, normFactor := normFactor ps'\<rparr>" by blast
    then have "ps' = ps\<lparr>bandBinIndices := rows, normFactor := normFactor ps'\<rparr>"
      by (subst (asm) bandStep_Inr(3) [OF step]) simp
    then show ?thesis by blast
  qed
qed

lemma bandLoop_fails:
  "i \<le> j \<Longrightarrow> j < n \<Longrightarrow> \<not> 0 < binIndex (bandFreqsHz ps ! (j + 1)) (F ! j) rate \<Longrightarrow>
   (\<forall>k. i \<le> k \<and> k < j \<longrightarrow> 0 < binIndex (bandFreqsHz ps ! (k + 1)) (F ! k) rate) \<Longrightarrow>
   \<exists>ps'. bandLoop rate F n i nb ps = Inl (EmptyBand j, ps')"
proof (induction rate F n i nb ps rule: bandLoop.induct)
  case (1 rate F n i nb ps)
  have True: "i < n" using "1.prems" by simp
  show ?case
  proof (cases "j = i")
    case True
    then show ?thesis using "1.prems" \<open>i < n\<close>
      by (simp add: bandLoop_unfold bandStep_eq Let_def)
  next
    case False
    then have lt: "Suc i \<le> j" using "1.prems" by simp
    have pos: "0 < binIndex (bandFreqsHz ps ! (i + 1)) (F ! i) rate" using "1.prems"(4) False lt by simp
    obtain nb1 ps1 where step: "bandStep rate F i nb ps = Inr (nb1, ps1)"
      using pos by (simp add: bandStep_eq Let_def)
    have same: "bandFreqsHz ps1 = bandFreqsHz ps"
      using bandStep_Inr(3) [OF step] by simp
    have "\<exists>ps'. bandLoop rate F n (Suc i) nb1 ps1 = Inl (EmptyBand j, ps')"
      using "1.IH" [OF True step refl lt "1.prems"(2)] "1.prems"(3,4) unfolding same by simp
    then show ?thesis using True step by (simp add: bandLoop_unfold)
  qed
qed

lemma centreFreqWhile_frame:
  "\<exists>k' cf. centreFreqWhile rate n hi j k bank = (k', bank\<lparr>centreFreqs := cf\<rparr>)"
proof (induction rate n hi j k bank rule: centreFreqWhile.induct)
  case (1 rate n hi j k bank)
  show ?case
  proof (cases "j < hi")
    case True
    from "1.IH" [OF True] obtain k' cf where
      "centreFreqWhile rate n hi (j + 1) (k + 1) (setCentreFreq k (of_int (c_int (j * rate)) / of_int n) bank)
        = (k', (setCentreFreq k (of_int (c_int (j * rate)) / of_int n) bank)\<lparr>centreFreqs := cf\<rparr>)" by blast
    then have "centreFreqWhile rate n hi j k bank = (k', bank\<lparr>centreFreqs := cf\<rparr>)"
      using True by (subst centreFreqWhile.simps) (simp add: setCentreFreq_def)
    then show ?thesis by blast
  next
    case False
    then have "centreFreqWhile rate n hi j k bank = (k, bank\<lparr>centreFreqs := centreFreqs bank\<rparr>)"
      by (subst centreFreqWhile.simps) simp
    then show ?thesis by blast
  qed
qed

lemma centreFreqLoop_frame:
  "\<exists>cf. centreFreqLoop rate F bins n i k bank = bank\<lparr>centreFreqs := cf\<rparr>"
proof (induction rate F bins n i k bank rule: centreFreqLoop.induct)
  case (1 rate F bins n i k bank)
  show ?case
  proof (cases "i < n")
    case True
    obtain k' cf where w: "centreFreqWhile rate (F ! i) (bins ! i ! 1) (bins ! i ! 0) k bank
       = (k', bank\<lparr>centreFreqs := cf\<rparr>)"
      using centreFreqWhile_frame by blast
    from "1.IH" [OF True w [symmetric]] obtain cf' where
      "centreFreqLoop rate F bins n (Suc i) k' (bank\<lparr>centreFreqs := cf\<rparr>) = bank\<lparr>centreFreqs := cf\<rparr>\<lparr>centreFreqs := cf'\<rparr>"
      by blast
    then have "centreFreqLoop rate F bins n i k bank = bank\<lparr>centreFreqs := cf'\<rparr>"
      using True w by (subst centreFreqLoop.simps) simp
    then show ?thesis by blast
  next
    case False
    then have "centreFreqLoop rate F bins n i k bank = bank\<lparr>centreFreqs := centreFreqs bank\<rparr>"
      by (subst centreFreqLoop.simps) simp
    then show ?thesis by blast
  qed
qed

lemma bandLoop_Inl_state:
  "bandLoop rate F n i nb ps = Inl (EmptyBand j, ps') \<Longrightarrow>
   length (bandBinIndices ps) = n \<Longrightarrow> length (normFactor ps) = n \<Longrightarrow>
   ps' = ps\<lparr>bandBinIndices := take i (bandBinIndices ps)
               @ map (\<lambda>k. [loBin rate F (bandFreqsHz ps) k, hiBin rate F (bandFreqsHz ps) k]) [i..<j]
               @ [[binIndex (bandFreqsHz ps ! j) (F ! j) rate,
                   binIndex (bandFreqsHz ps ! (j + 1)) (F ! j) rate]]
               @ drop (Suc j) (bandBinIndices ps),
            normFactor := take i (normFactor ps)
               @ map (\<lambda>k. normalisationFactor (normalisation ps) (F ! k) (windowSizes ps ! k)
                            (referenceValue ps * referenceValue ps)) [i..<j]
               @ drop j (normFactor ps)\<rparr>"
proof (induction rate F n i nb ps rule: bandLoop.induct)
  case (1 rate F n i nb ps)
  have lt: "i < n" using "1.prems"(1) by (cases "i < n") (simp_all add: bandLoop_unfold)
  show ?case
  proof (cases "bandStep rate F i nb ps")
    case (Inl a)
    then have a: "a = (EmptyBand j, ps')" using "1.prems"(1) lt by (simp add: bandLoop_unfold)
    note s = bandStep_Inl [OF Inl [unfolded a]]
    have ji: "j = i" using s(2) by simp
    have u: "(bandBinIndices ps)[i := [binIndex (bandFreqsHz ps ! i) (F ! i) rate,
                  binIndex (bandFreqsHz ps ! (i + 1)) (F ! i) rate]]
        = take i (bandBinIndices ps)
            @ [[binIndex (bandFreqsHz ps ! i) (F ! i) rate,
                binIndex (bandFreqsHz ps ! (i + 1)) (F ! i) rate]]
            @ drop (Suc i) (bandBinIndices ps)"
      using lt "1.prems"(2) by (simp add: upd_conv_take_nth_drop)
    show ?thesis unfolding ji s(3) u by simp
  next
    case (Inr b)
    obtain nb1 ps1 where b: "b = (nb1, ps1)" by (cases b)
    have step: "bandStep rate F i nb ps = Inr (nb1, ps1)" using Inr b by simp
    have rest: "bandLoop rate F n (Suc i) nb1 ps1 = Inl (EmptyBand j, ps')"
      using "1.prems"(1) lt step by (simp add: bandLoop_unfold)
    note s = bandStep_Inr(3) [OF step]
    have same: "bandFreqsHz ps1 = bandFreqsHz ps" "normalisation ps1 = normalisation ps"
      "windowSizes ps1 = windowSizes ps" "referenceValue ps1 = referenceValue ps"
      and len: "length (bandBinIndices ps1) = n" "length (normFactor ps1) = n"
      using s "1.prems"(2,3) by simp_all
    from bandLoop_Inl [OF rest] have ij: "Suc i \<le> j" "j < n" by auto
    have upt: "[i..<j] = i # [Suc i..<j]" using ij by (simp add: upt_conv_Cons)
    have t1: "take (Suc i) (bandBinIndices ps1) = take i (bandBinIndices ps)
        @ [[loBin rate F (bandFreqsHz ps) i, hiBin rate F (bandFreqsHz ps) i]]"
      using s lt "1.prems"(2) by (simp add: take_Suc_conv_app_nth)
    have t2: "take (Suc i) (normFactor ps1) = take i (normFactor ps)
        @ [normalisationFactor (normalisation ps) (F ! i) (windowSizes ps ! i)
                            (referenceValue ps * referenceValue ps)]"
      using s lt "1.prems"(3) by (simp add: take_Suc_conv_app_nth)
    have d1: "drop (Suc j) (bandBinIndices ps1) = drop (Suc j) (bandBinIndices ps)"
      using s ij by simp
    have d2: "drop j (normFactor ps1) = drop j (normFactor ps)"
      using s ij by simp
    have "ps' = ps1\<lparr>bandBinIndices := take (Suc i) (bandBinIndices ps1)
               @ map (\<lambda>k. [loBin rate F (bandFreqsHz ps) k, hiBin rate F (bandFreqsHz ps) k]) [Suc i..<j]
               @ [[binIndex (bandFreqsHz ps ! j) (F ! j) rate,
                   binIndex (bandFreqsHz ps ! (j + 1)) (F ! j) rate]]
               @ drop (Suc j) (bandBinIndices ps1),
            normFactor := take (Suc i) (normFactor ps1)
               @ map (\<lambda>k. normalisationFactor (normalisation ps) (F ! k) (windowSizes ps ! k)
                            (referenceValue ps * referenceValue ps)) [Suc i..<j]
               @ drop j (normFactor ps1)\<rparr>"
      using "1.IH" [OF lt step refl rest len] unfolding same .
    then show ?thesis unfolding t1 t2 d1 d2 upt by (simp add: s)
  qed
qed

subsection \<open>What a successful call of initializeInternal leaves behind\<close>

lemma initializeInternal_DoneE:
  assumes "initializeInternal input ps0 = Done ps"
  obtains engines nb ps1 where
    "nChannels input = int (length (windowSizes ps0))"
    "length (bandFreqsHz ps0) = length (windowSizes ps0) + 1"
    "\<not> anyAscendingValues (windowSizes ps0)"
    "fftSetup input (ps0\<lparr>ffts := []\<rparr>) = Inr (fftSizes input ps0, engines)"
    "bandLoop (fs input) (fftSizes input ps0) (length (windowSizes ps0)) 0 0
       (ps0\<lparr>ffts := engines,
            bandBinIndices := resize (length (windowSizes ps0)) [] (bandBinIndices ps0),
            normFactor := resize (length (windowSizes ps0)) 0 (normFactor ps0)\<rparr>) = Inr (nb, ps1)"
    "ps = ps1\<lparr>outputBank :=
        centreFreqLoop (fs input) (fftSizes input ps0) (bandBinIndices ps1) (length (windowSizes ps0)) 0 0
          (setFrameRate (frameRate input)
             (SignalBank_initialize (nEars input) nb 1 (fs input) (outputBank ps1)))\<rparr>"
proof -
  have c1: "nChannels input = int (length (windowSizes ps0))"
    and c2: "length (bandFreqsHz ps0) = length (windowSizes ps0) + 1"
    and c3: "\<not> anyAscendingValues (windowSizes ps0)"
    using assms unfolding initializeInternal_def Let_def
    by (auto split: if_splits)
  from assms c1 c2 c3 obtain F engines where
    su: "fftSetup input (ps0\<lparr>ffts := []\<rparr>) = Inr (F, engines)"
    unfolding initializeInternal_def Let_def
    by (cases "fftSetup input (ps0\<lparr>ffts := []\<rparr>)") auto
  have F: "F = fftSizes input ps0" using fftSetup_fftSizes [OF su] by simp
  from assms c1 c2 c3 su obtain nb ps1 where
    bl: "bandLoop (fs input) F (length (windowSizes ps0)) 0 0
       (ps0\<lparr>ffts := engines,
            bandBinIndices := resize (length (windowSizes ps0)) [] (bandBinIndices ps0),
            normFactor := resize (length (windowSizes ps0)) 0 (normFactor ps0)\<rparr>) = Inr (nb, ps1)"
    unfolding initializeInternal_def Let_def
    by (auto split: sum.splits prod.splits)
  have "ps = ps1\<lparr>outputBank :=
        centreFreqLoop (fs input) F (bandBinIndices ps1) (length (windowSizes ps0)) 0 0
          (setFrameRate (frameRate input)
             (SignalBank_initialize (nEars input) nb 1 (fs input) (outputBank ps1)))\<rparr>"
    using assms c1 c2 c3 su bl unfolding initializeInternal_def Let_def by simp
  then show ?thesis using that c1 c2 c3 su bl unfolding F by blast
qed

lemma initializeInternal_Done:
  assumes "initializeInternal input ps0 = Done ps"
  shows "bandBinIndices ps =
           map (\<lambda>j. [loBin (fs input) (fftSizes input ps0) (bandFreqsHz ps0) j,
                     hiBin (fs input) (fftSizes input ps0) (bandFreqsHz ps0) j])
             [0..<length (windowSizes ps0)]"
    and "normFactor ps =
           map (\<lambda>j. normalisationFactor (normalisation ps0) (fftSizes input ps0 ! j)
                      (windowSizes ps0 ! j) (referenceValue ps0 * referenceValue ps0))
             [0..<length (windowSizes ps0)]"
    and "ffts ps = map (\<lambda>n. FFT_initialize (new_FFT n))
           (if sampleSpectrumUniformly ps0 then [nextPowerOfTwo (nSamples input)]
            else fftSizes input ps0)"
    and "nChannels (outputBank ps) =
           sum_list (map (\<lambda>j. hiBin (fs input) (fftSizes input ps0) (bandFreqsHz ps0) j
                              - loBin (fs input) (fftSizes input ps0) (bandFreqsHz ps0) j)
             [0..<length (windowSizes ps0)])"
    and "nEars (outputBank ps) = nEars input \<and> nSamples (outputBank ps) = 1
           \<and> fs (outputBank ps) = fs input \<and> frameRate (outputBank ps) = frameRate input"
    and "bandFreqsHz ps = bandFreqsHz ps0 \<and> windowSizes ps = windowSizes ps0
           \<and> sampleSpectrumUniformly ps = sampleSpectrumUniformly ps0
           \<and> normalisation ps = normalisation ps0 \<and> referenceValue ps = referenceValue ps0"
    and "sampleSpectrumUniformly ps0 \<longrightarrow> 0 < length (windowSizes ps0)"
proof -
  from assms obtain engines nb ps1 where
    su: "fftSetup input (ps0\<lparr>ffts := []\<rparr>) = Inr (fftSizes input ps0, engines)"
    and bl: "bandLoop (fs input) (fftSizes input ps0) (length (windowSizes ps0)) 0 0
       (ps0\<lparr>ffts := engines,
            bandBinIndices := resize (length (windowSizes ps0)) [] (bandBinIndices ps0),
            normFactor := resize (length (windowSizes ps0)) 0 (normFactor ps0)\<rparr>) = Inr (nb, ps1)"
    and ps: "ps = ps1\<lparr>outputBank :=
        centreFreqLoop (fs input) (fftSizes input ps0) (bandBinIndices ps1) (length (windowSizes ps0)) 0 0
          (setFrameRate (frameRate input)
             (SignalBank_initialize (nEars input) nb 1 (fs input) (outputBank ps1)))\<rparr>"
    by (rule initializeInternal_DoneE)
  have ps1: "ps1 = ps0\<lparr>ffts := engines,
       bandBinIndices := map (\<lambda>j. [loBin (fs input) (fftSizes input ps0) (bandFreqsHz ps0) j,
                     hiBin (fs input) (fftSizes input ps0) (bandFreqsHz ps0) j])
             [0..<length (windowSizes ps0)],
       normFactor := map (\<lambda>j. normalisationFactor (normalisation ps0) (fftSizes input ps0 ! j)
                      (windowSizes ps0 ! j) (referenceValue ps0 * referenceValue ps0))
             [0..<length (windowSizes ps0)]\<rparr>"
    using bandLoop_state [OF bl] by (simp add: resize_length)
  have nb: "nb = sum_list (map (\<lambda>j. hiBin (fs input) (fftSizes input ps0) (bandFreqsHz ps0) j
                              - loBin (fs input) (fftSizes input ps0) (bandFreqsHz ps0) j)
             [0..<length (windowSizes ps0)])"
    using bandLoop_nBins [OF bl] by simp
  obtain cf where cf: "outputBank ps = (setFrameRate (frameRate input)
             (SignalBank_initialize (nEars input) nb 1 (fs input) (outputBank ps1)))\<lparr>centreFreqs := cf\<rparr>"
    using centreFreqLoop_frame [of "fs input" "fftSizes input ps0" "bandBinIndices ps1"
        "length (windowSizes ps0)" 0 0] unfolding ps by auto
  show "bandBinIndices ps =
           map (\<lambda>j. [loBin (fs input) (fftSizes input ps0) (bandFreqsHz ps0) j,
                     hiBin (fs input) (fftSizes input ps0) (bandFreqsHz ps0) j])
             [0..<length (windowSizes ps0)]"
    unfolding ps by (simp add: ps1)
  show "normFactor ps =
           map (\<lambda>j. normalisationFactor (normalisation ps0) (fftSizes input ps0 ! j)
                      (windowSizes ps0 ! j) (referenceValue ps0 * referenceValue ps0))
             [0..<length (windowSizes ps0)]"
    unfolding ps by (simp add: ps1)
  show "ffts ps = map (\<lambda>n. FFT_initialize (new_FFT n))
           (if sampleSpectrumUniformly ps0 then [nextPowerOfTwo (nSamples input)]
            else fftSizes input ps0)"
    using fftSetup_sizes [OF su] unfolding ps by (simp add: ps1)
  show "nChannels (outputBank ps) =
           sum_list (map (\<lambda>j. hiBin (fs input) (fftSizes input ps0) (bandFreqsHz ps0) j
                              - loBin (fs input) (fftSizes input ps0) (bandFreqsHz ps0) j)
             [0..<length (windowSizes ps0)])"
    unfolding cf by (simp add: setFrameRate_def SignalBank_initialize_def nb)
  show "nEars (outputBank ps) = nEars input \<and> nSamples (outputBank ps) = 1
           \<and> fs (outputBank ps) = fs input \<and> frameRate (outputBank ps) = frameRate input"
    unfolding cf by (simp add: setFrameRate_def SignalBank_initialize_def)
  show "bandFreqsHz ps = bandFreqsHz ps0 \<and> windowSizes ps = windowSizes ps0
           \<and> sampleSpectrumUniformly ps = sampleSpectrumUniformly ps0
           \<and> normalisation ps = normalisation ps0 \<and> referenceValue ps = referenceValue ps0"
    unfolding ps by (simp add: ps1)
  show "sampleSpectrumUniformly ps0 \<longrightarrow> 0 < length (windowSizes ps0)"
    using su by (auto simp: fftSetup_def Let_def split: if_splits)
qed

lemma initializeInternal_upper_positive:
  assumes "initializeInternal input ps0 = Done ps" and "j < length (windowSizes ps0)"
  shows "0 < binIndex (bandFreqsHz ps0 ! (j + 1)) (fftSizes input ps0 ! j) (fs input)"
proof -
  from assms(1) obtain engines nb ps1 where
    bl: "bandLoop (fs input) (fftSizes input ps0) (length (windowSizes ps0)) 0 0
       (ps0\<lparr>ffts := engines,
            bandBinIndices := resize (length (windowSizes ps0)) [] (bandBinIndices ps0),
            normFactor := resize (length (windowSizes ps0)) 0 (normFactor ps0)\<rparr>) = Inr (nb, ps1)"
    by (rule initializeInternal_DoneE)
  show ?thesis using bandLoop_upper_positive [OF bl _ assms(2)] by simp
qed

lemma bandBinIndices_nth:
  assumes "initializeInternal input ps0 = Done ps" and "i < length (windowSizes ps0)"
  shows "bandBinIndices ps ! i =
           [loBin (fs input) (fftSizes input ps0) (bandFreqsHz ps0) i,
            hiBin (fs input) (fftSizes input ps0) (bandFreqsHz ps0) i]"
  using assms(2) unfolding initializeInternal_Done(1) [OF assms(1)] by simp

lemma normFactor_nth:
  assumes "initializeInternal input ps0 = Done ps" and "i < length (windowSizes ps0)"
  shows "normFactor ps ! i =
           normalisationFactor (normalisation ps0) (fftSizes input ps0 ! i) (windowSizes ps0 ! i)
             (referenceValue ps0 * referenceValue ps0)"
  using assms(2) unfolding initializeInternal_Done(2) [OF assms(1)] by simp

lemma stored_range_below_nyquist:
  assumes "initializeInternal input ps0 = Done ps" and "i < length (windowSizes ps0)"
    and "k < bandBinIndices ps ! i ! 1"
  shows "k < fftSizes input ps0 ! i div 2 + (if odd (fftSizes input ps0 ! i) then 1 else 0)"
proof -
  have pos: "0 \<le> fftSizes input ps0 ! i"
    using fftSizes_pos [OF assms(2), of input] by simp
  have "bandBinIndices ps ! i ! 1 \<le> nyqIdx (fftSizes input ps0 ! i)"
    unfolding bandBinIndices_nth [OF assms(1,2)] using hiBin_le_nyqIdx by simp
  then show ?thesis using assms(3) unfolding nyqIdx_nonneg [OF pos] by simp
qed

subsection \<open>When initializeInternal succeeds and when it fails\<close>

lemma initializeInternal_succeeds:
  assumes "nChannels input = int (length (windowSizes ps0))"
    and "length (bandFreqsHz ps0) = length (windowSizes ps0) + 1"
    and "\<not> anyAscendingValues (windowSizes ps0)"
    and "sampleSpectrumUniformly ps0 \<longrightarrow> 0 < length (windowSizes ps0)"
    and "\<forall>j<length (windowSizes ps0).
           0 < binIndex (bandFreqsHz ps0 ! (j + 1)) (fftSizes input ps0 ! j) (fs input)"
  shows "\<exists>ps. initializeInternal input ps0 = Done ps"
proof -
  obtain engines where su: "fftSetup input (ps0\<lparr>ffts := []\<rparr>) = Inr (fftSizes input ps0, engines)"
    using fftSetup_total [of "ps0\<lparr>ffts := []\<rparr>" input] assms(4) by auto
  obtain nb ps1 where bl: "bandLoop (fs input) (fftSizes input ps0) (length (windowSizes ps0)) 0 0
       (ps0\<lparr>ffts := engines,
            bandBinIndices := resize (length (windowSizes ps0)) [] (bandBinIndices ps0),
            normFactor := resize (length (windowSizes ps0)) 0 (normFactor ps0)\<rparr>) = Inr (nb, ps1)"
    using bandLoop_total [of 0 "length (windowSizes ps0)" "ps0\<lparr>ffts := engines,
            bandBinIndices := resize (length (windowSizes ps0)) [] (bandBinIndices ps0),
            normFactor := resize (length (windowSizes ps0)) 0 (normFactor ps0)\<rparr>"
            "fftSizes input ps0" "fs input" 0] assms(5) by auto
  show ?thesis
    using assms(1,2,3) su bl unfolding initializeInternal_def Let_def by simp
qed

lemma initializeInternal_is_Done:
  "is_Done (initializeInternal input ps0) \<longleftrightarrow>
     nChannels input = int (length (windowSizes ps0))
     \<and> length (bandFreqsHz ps0) = length (windowSizes ps0) + 1
     \<and> \<not> anyAscendingValues (windowSizes ps0)
     \<and> (sampleSpectrumUniformly ps0 \<longrightarrow> 0 < length (windowSizes ps0))
     \<and> (\<forall>j<length (windowSizes ps0).
           0 < binIndex (bandFreqsHz ps0 ! (j + 1)) (fftSizes input ps0 ! j) (fs input))"
proof
  assume "is_Done (initializeInternal input ps0)"
  then obtain ps where d: "initializeInternal input ps0 = Done ps"
    by (cases "initializeInternal input ps0") auto
  from d obtain engines nb ps1 where
    "nChannels input = int (length (windowSizes ps0))"
    "length (bandFreqsHz ps0) = length (windowSizes ps0) + 1"
    "\<not> anyAscendingValues (windowSizes ps0)"
    by (rule initializeInternal_DoneE)
  then show "nChannels input = int (length (windowSizes ps0))
     \<and> length (bandFreqsHz ps0) = length (windowSizes ps0) + 1
     \<and> \<not> anyAscendingValues (windowSizes ps0)
     \<and> (sampleSpectrumUniformly ps0 \<longrightarrow> 0 < length (windowSizes ps0))
     \<and> (\<forall>j<length (windowSizes ps0).
           0 < binIndex (bandFreqsHz ps0 ! (j + 1)) (fftSizes input ps0 ! j) (fs input))"
    using initializeInternal_Done(7) [OF d] initializeInternal_upper_positive [OF d] by blast
next
  assume "nChannels input = int (length (windowSizes ps0))
     \<and> length (bandFreqsHz ps0) = length (windowSizes ps0) + 1
     \<and> \<not> anyAscendingValues (windowSizes ps0)
     \<and> (sampleSpectrumUniformly ps0 \<longrightarrow> 0 < length (windowSizes ps0))
     \<and> (\<forall>j<length (windowSizes ps0).
           0 < binIndex (bandFreqsHz ps0 ! (j + 1)) (fftSizes input ps0 ! j) (fs input))"
  then have "\<exists>ps. initializeInternal input ps0 = Done ps"
    by (intro initializeInternal_succeeds) blast+
  then show "is_Done (initializeInternal input ps0)" by auto
qed

lemma is_Done_mode:
  "is_Done (initializeInternal input (ps0\<lparr>normalisation := m\<rparr>))
     = is_Done (initializeInternal input ps0)"
  unfolding initializeInternal_is_Done by simp

lemma initializeInternal_shape:
  "nChannels input \<noteq> int (length (windowSizes ps0))
     \<or> length (bandFreqsHz ps0) \<noteq> length (windowSizes ps0) + 1 \<Longrightarrow>
   initializeInternal input ps0 = Aborted ShapeMismatch (ps0\<lparr>ffts := []\<rparr>)"
  by (auto simp: initializeInternal_def Let_def)

lemma initializeInternal_order:
  "nChannels input = int (length (windowSizes ps0)) \<Longrightarrow>
   length (bandFreqsHz ps0) = length (windowSizes ps0) + 1 \<Longrightarrow>
   anyAscendingValues (windowSizes ps0) \<Longrightarrow>
   initializeInternal input ps0 = Aborted InvalidParameter (ps0\<lparr>ffts := []\<rparr>)"
  by (simp add: initializeInternal_def Let_def)

lemma initializeInternal_checked:
  "nChannels input = int (length (windowSizes ps0)) \<Longrightarrow>
   length (bandFreqsHz ps0) = length (windowSizes ps0) + 1 \<Longrightarrow>
   \<not> anyAscendingValues (windowSizes ps0) \<Longrightarrow>
   initializeInternal input ps0 =
     (case fftSetup input (ps0\<lparr>ffts := []\<rparr>) of
        Inl err \<Rightarrow> Aborted err (ps0\<lparr>ffts := []\<rparr>)
      | Inr (fftSize, engines) \<Rightarrow>
          (case bandLoop (fs input) fftSize (length (windowSizes ps0)) 0 0
                  (ps0\<lparr>ffts := engines,
                       bandBinIndices := resize (length (windowSizes ps0)) [] (bandBinIndices ps0),
                       normFactor := resize (length (windowSizes ps0)) 0 (normFactor ps0)\<rparr>) of
             Inl (err, ps') \<Rightarrow> Aborted err ps'
           | Inr (nBins, ps') \<Rightarrow>
               Done (ps'\<lparr>outputBank :=
                 centreFreqLoop (fs input) fftSize (bandBinIndices ps') (length (windowSizes ps0)) 0 0
                   (setFrameRate (frameRate input)
                      (SignalBank_initialize (nEars input) nBins 1 (fs input) (outputBank ps')))\<rparr>)))"
  by (simp add: initializeInternal_def Let_def split: sum.splits prod.splits)

lemma initializeInternal_Aborted_cases:
  assumes "initializeInternal input ps0 = Aborted err ps"
  shows "(err = ShapeMismatch \<and> ps = ps0\<lparr>ffts := []\<rparr>
            \<and> (nChannels input \<noteq> int (length (windowSizes ps0))
                 \<or> length (bandFreqsHz ps0) \<noteq> length (windowSizes ps0) + 1))
       \<or> (err = InvalidParameter \<and> ps = ps0\<lparr>ffts := []\<rparr>
            \<and> nChannels input = int (length (windowSizes ps0))
            \<and> length (bandFreqsHz ps0) = length (windowSizes ps0) + 1
            \<and> anyAscendingValues (windowSizes ps0))
       \<or> (err = OutOfBounds \<and> ps = ps0\<lparr>ffts := []\<rparr>)
       \<or> (nChannels input = int (length (windowSizes ps0))
            \<and> length (bandFreqsHz ps0) = length (windowSizes ps0) + 1
            \<and> \<not> anyAscendingValues (windowSizes ps0)
            \<and> (\<exists>engines. fftSetup input (ps0\<lparr>ffts := []\<rparr>) = Inr (fftSizes input ps0, engines)
                 \<and> bandLoop (fs input) (fftSizes input ps0) (length (windowSizes ps0)) 0 0
                 (ps0\<lparr>ffts := engines,
                      bandBinIndices := resize (length (windowSizes ps0)) [] (bandBinIndices ps0),
                      normFactor := resize (length (windowSizes ps0)) 0 (normFactor ps0)\<rparr>)
                 = Inl (err, ps)))"
proof (cases "nChannels input \<noteq> int (length (windowSizes ps0))
                 \<or> length (bandFreqsHz ps0) \<noteq> length (windowSizes ps0) + 1")
  case True
  then show ?thesis using assms initializeInternal_shape [OF True] by simp
next
  case shape: False
  show ?thesis
  proof (cases "anyAscendingValues (windowSizes ps0)")
    case True
    then show ?thesis using assms shape initializeInternal_order [of input ps0] by simp
  next
    case asc: False
    note chk = initializeInternal_checked [of input ps0, OF _ _ asc]
    show ?thesis
    proof (cases "fftSetup input (ps0\<lparr>ffts := []\<rparr>)")
      case (Inl e)
      then have "e = OutOfBounds" by (auto simp: fftSetup_def Let_def split: if_splits)
      then show ?thesis using assms shape Inl chk by simp
    next
      case (Inr p)
      obtain F engines where p: "p = (F, engines)" by (cases p)
      have F: "F = fftSizes input ps0" using fftSetup_fftSizes [OF Inr [unfolded p]] by simp
      have "bandLoop (fs input) (fftSizes input ps0) (length (windowSizes ps0)) 0 0
                 (ps0\<lparr>ffts := engines,
                      bandBinIndices := resize (length (windowSizes ps0)) [] (bandBinIndices ps0),
                      normFactor := resize (length (windowSizes ps0)) 0 (normFactor ps0)\<rparr>)
                 = Inl (err, ps)"
        using assms shape Inr chk unfolding p F
        by (simp split: sum.splits prod.splits)
      moreover have "fftSetup input (ps0\<lparr>ffts := []\<rparr>) = Inr (fftSizes input ps0, engines)"
        using Inr unfolding p F .
      ultimately show ?thesis using shape asc by blast
    qed
  qed
qed

text \<open>
  What the assertion of line 83 checks: the call fails with EmptyBand for channel \<open>i\<close>
  exactly when the earlier checks pass and \<open>i\<close> is the first channel whose computed upper
  bin is not positive.
\<close>

lemma empty_band_guard:
  "((\<exists>ps. initializeInternal input ps0 = Aborted (EmptyBand i) ps) \<longleftrightarrow>
      nChannels input = int (length (windowSizes ps0))
      \<and> length (bandFreqsHz ps0) = length (windowSizes ps0) + 1
      \<and> \<not> anyAscendingValues (windowSizes ps0)
      \<and> i < length (windowSizes ps0)
      \<and> \<lceil>bandFreqsHz ps0 ! (i + 1) * of_int (fftSizes input ps0 ! i) / of_int (fs input)\<rceil> \<le> 0
      \<and> (\<forall>k<i. 0 < \<lceil>bandFreqsHz ps0 ! (k + 1) * of_int (fftSizes input ps0 ! k) / of_int (fs input)\<rceil>))
   \<and> (\<forall>ps j. initializeInternal input ps0 = Done ps \<and> j < length (windowSizes ps0)
         \<longrightarrow> 1 \<le> bandBinIndices ps ! j ! 1)"
proof -
  let ?rhs = "nChannels input = int (length (windowSizes ps0))
      \<and> length (bandFreqsHz ps0) = length (windowSizes ps0) + 1
      \<and> \<not> anyAscendingValues (windowSizes ps0)
      \<and> i < length (windowSizes ps0)
      \<and> \<lceil>bandFreqsHz ps0 ! (i + 1) * of_int (fftSizes input ps0 ! i) / of_int (fs input)\<rceil> \<le> 0
      \<and> (\<forall>k<i. 0 < \<lceil>bandFreqsHz ps0 ! (k + 1) * of_int (fftSizes input ps0 ! k) / of_int (fs input)\<rceil>)"
  have A: ?rhs if "\<exists>ps. initializeInternal input ps0 = Aborted (EmptyBand i) ps"
  proof -
    from that obtain ps where a: "initializeInternal input ps0 = Aborted (EmptyBand i) ps" by blast
    from initializeInternal_Aborted_cases [OF a]
    obtain engines where shape: "nChannels input = int (length (windowSizes ps0))"
        "length (bandFreqsHz ps0) = length (windowSizes ps0) + 1"
        "\<not> anyAscendingValues (windowSizes ps0)"
      and bl: "bandLoop (fs input) (fftSizes input ps0) (length (windowSizes ps0)) 0 0
                   (ps0\<lparr>ffts := engines,
                        bandBinIndices := resize (length (windowSizes ps0)) [] (bandBinIndices ps0),
                        normFactor := resize (length (windowSizes ps0)) 0 (normFactor ps0)\<rparr>)
                   = Inl (EmptyBand i, ps)"
      by auto
    from bandLoop_Inl [OF bl]
    have "i < length (windowSizes ps0)
       \<and> \<not> 0 < binIndex (bandFreqsHz ps0 ! (i + 1)) (fftSizes input ps0 ! i) (fs input)
       \<and> (\<forall>k. 0 \<le> k \<and> k < i \<longrightarrow> 0 < binIndex (bandFreqsHz ps0 ! (k + 1)) (fftSizes input ps0 ! k) (fs input))"
      by auto
    then show ?thesis
      using shape unfolding binIndex_def by (simp add: not_less)
  qed
  have B: "\<exists>ps. initializeInternal input ps0 = Aborted (EmptyBand i) ps" if h: ?rhs
  proof -
    from h have n: "sampleSpectrumUniformly (ps0\<lparr>ffts := []\<rparr>)
        \<longrightarrow> 0 < length (windowSizes (ps0\<lparr>ffts := []\<rparr>))"
      by auto
    obtain engines where su: "fftSetup input (ps0\<lparr>ffts := []\<rparr>) = Inr (fftSizes input ps0, engines)"
      using fftSetup_total [OF n, of input] by auto
    have "\<exists>ps'. bandLoop (fs input) (fftSizes input ps0) (length (windowSizes ps0)) 0 0
                   (ps0\<lparr>ffts := engines,
                        bandBinIndices := resize (length (windowSizes ps0)) [] (bandBinIndices ps0),
                        normFactor := resize (length (windowSizes ps0)) 0 (normFactor ps0)\<rparr>)
                   = Inl (EmptyBand i, ps')"
      using h by (intro bandLoop_fails) (simp_all add: binIndex_def not_less)
    then show ?thesis
      using h su by (auto simp: initializeInternal_checked)
  qed
  have C: "1 \<le> bandBinIndices ps ! j ! 1"
    if d: "initializeInternal input ps0 = Done ps" and j: "j < length (windowSizes ps0)" for ps j
  proof -
    have raw: "0 < binIndex (bandFreqsHz ps0 ! (j + 1)) (fftSizes input ps0 ! j) (fs input)"
      using initializeInternal_upper_positive [OF d j] .
    have "1 \<le> nyqIdx (fftSizes input ps0 ! j)"
      using fftSizes_pos [OF j, of input] by (rule nyqIdx_pos)
    then have "1 \<le> hiBin (fs input) (fftSizes input ps0) (bandFreqsHz ps0) j"
      using raw by (simp add: hiBin_def Let_def)
    then show ?thesis
      unfolding bandBinIndices_nth [OF d j] by simp
  qed
  from A B C show ?thesis by blast
qed

text \<open>
  The normalisation factor that a successful call stores for channel \<open>i\<close>, mode by mode;
  the mode has no influence on whether the call succeeds.
\<close>

lemma normalisation_factor_modes:
  assumes "initializeInternal input ps0 = Done ps" and "i < length (windowSizes ps0)"
  shows "normFactor ps ! i =
           (case normalisation ps0 of
              NONE \<Rightarrow> 1 / (referenceValue ps0)\<^sup>2
            | ENERGY \<Rightarrow> 2 / (of_int (fftSizes input ps0 ! i) * (referenceValue ps0)\<^sup>2)
            | AVERAGE_POWER \<Rightarrow>
                2 / (of_int (c_int (fftSizes input ps0 ! i * windowSizes ps0 ! i))
                       * (referenceValue ps0)\<^sup>2)
            | OTHER v \<Rightarrow> 2 / (of_int (fftSizes input ps0 ! i) * (referenceValue ps0)\<^sup>2))
       \<and> is_Done (initializeInternal input (setNormalisation (OTHER v) ps0))
       \<and> normFactor (object_of (initializeInternal input (setNormalisation (OTHER v) ps0)))
           = normFactor (object_of (initializeInternal input (setNormalisation ENERGY ps0)))
       \<and> normalisation (new_PowerSpectrum edges windows uniform) = AVERAGE_POWER
       \<and> referenceValue (new_PowerSpectrum edges windows uniform) = 2 / 10 ^ 5"
proof -
  have a: "normFactor ps ! i =
           (case normalisation ps0 of
              NONE \<Rightarrow> 1 / (referenceValue ps0)\<^sup>2
            | ENERGY \<Rightarrow> 2 / (of_int (fftSizes input ps0 ! i) * (referenceValue ps0)\<^sup>2)
            | AVERAGE_POWER \<Rightarrow>
                2 / (of_int (c_int (fftSizes input ps0 ! i * windowSizes ps0 ! i))
                       * (referenceValue ps0)\<^sup>2)
            | OTHER v \<Rightarrow> 2 / (of_int (fftSizes input ps0 ! i) * (referenceValue ps0)\<^sup>2))"
    unfolding normFactor_nth [OF assms] normalisationFactor_def
    by (simp add: power2_eq_square split: Normalisation.splits)
  have d: "is_Done (initializeInternal input ps0)" using assms(1) by simp
  have o: "is_Done (initializeInternal input (setNormalisation (OTHER v) ps0))"
    and e: "is_Done (initializeInternal input (setNormalisation ENERGY ps0))"
    using d by (simp_all add: setNormalisation_def is_Done_mode)
  have b: "normFactor (object_of (initializeInternal input (setNormalisation (OTHER v) ps0)))
           = normFactor (object_of (initializeInternal input (setNormalisation ENERGY ps0)))"
    unfolding initializeInternal_Done(2) [OF is_Done_object [OF o]]
      initializeInternal_Done(2) [OF is_Done_object [OF e]]
    by (simp add: setNormalisation_def normalisationFactor_def)
  have c: "normalisation (new_PowerSpectrum edges windows uniform) = AVERAGE_POWER
       \<and> referenceValue (new_PowerSpectrum edges windows uniform) = 2 / 10 ^ 5"
    by (simp add: new_PowerSpectrum_def)
  from a o b c show ?thesis by blast
qed

subsection \<open>The loops of processInternal\<close>

lemma processInternal_no_engines:
  "ffts ps = [] \<Longrightarrow> windowSizes ps \<noteq> [] \<Longrightarrow> 0 < nEars input \<Longrightarrow>
   processInternal getReal getImag input ps = Inl OutOfBounds"
  unfolding processInternal_def Let_def
  by (subst earLoop.simps, subst chnLoop.simps) simp

lemma binWhile_eq:
  "binWhile getReal getImag engine fftIdx nf hi bin (written, reads) =
     (written @ map (\<lambda>k. nf * (getReal engine k * getReal engine k + getImag engine k * getImag engine k))
                 [bin..hi - 1],
      reads @ map (\<lambda>k. (fftIdx, k)) [bin..hi - 1])"
proof (induction getReal getImag engine fftIdx nf hi bin "(written, reads)"
    arbitrary: written reads rule: binWhile.induct)
  case (1 getReal getImag engine fftIdx nf hi bin written reads)
  show ?case
  proof (cases "bin < hi")
    case True
    have u: "[bin..hi - 1] = bin # [bin + 1..hi - 1]" using True by (simp add: upto_rec1)
    show ?thesis
      using True "1.hyps" [OF True refl refl]
      by (subst binWhile.simps) (simp add: u Let_def)
  next
    case False
    then show ?thesis by (subst binWhile.simps) simp
  qed
qed

lemma FFT_process_again:
  "FFT_process s c (FFT_process s' c' e) = FFT_process s c e"
  by (simp add: FFT_process_def)

lemma sameEngine_refl: "list_all2 sameEngine es es"
  by (simp add: list_all2_refl sameEngine_def)

lemma sameEngine_process:
  "sameEngine e e' \<Longrightarrow> FFT_process s c e = FFT_process s c e'"
proof -
  assume "sameEngine e e'"
  then have "FFT_process s c (FFT_process [] 0 e) = FFT_process s c (FFT_process [] 0 e')"
    by (simp add: sameEngine_def)
  then show ?thesis by (simp only: FFT_process_again)
qed

lemma sameEngine_processed: "sameEngine e e' \<Longrightarrow> sameEngine (FFT_process s c e) e'"
  by (simp add: sameEngine_def FFT_process_again)

lemma sameEngines_update:
  assumes "list_all2 sameEngine es es'" and "i < length es'"
  shows "list_all2 sameEngine (es[i := FFT_process s c (es ! i)]) es'"
proof -
  have "sameEngine (es ! i) (es' ! i)" using assms by (simp add: list_all2_nthD2)
  then have "sameEngine (FFT_process s c (es ! i)) (es' ! i)" by (rule sameEngine_processed)
  with assms(1) have "list_all2 sameEngine (es[i := FFT_process s c (es ! i)]) (es'[i := es' ! i])"
    by (rule list_all2_update_cong)
  then show ?thesis by simp
qed

lemma chnLoop_eq:
  assumes "nW \<le> length (bandBinIndices ps)" and "\<forall>c<nW. 1 < length (bandBinIndices ps ! c)"
    and "nW \<le> length (normFactor ps)" and "\<forall>c<nW. engineIndex ps c < length (ffts ps)"
  shows "list_all2 sameEngine engines (ffts ps) \<Longrightarrow> sampleSpectrumUniformly ps \<longrightarrow> fftIdx = 0 \<Longrightarrow>
    \<exists>fftIdx' engines'.
       chnLoop getReal getImag frame ps ear nW chn (fftIdx, engines, written, reads)
         = Inr (fftIdx', engines',
                written @ concat (map (bandPowers getReal getImag frame ps ear) [chn..<nW]),
                reads @ concat (map (bandReads ps) [chn..<nW]))
       \<and> list_all2 sameEngine engines' (ffts ps)
       \<and> (sampleSpectrumUniformly ps \<longrightarrow> fftIdx' = 0)"
proof (induction "nW - chn" arbitrary: chn fftIdx engines written reads)
  case 0
  then have "\<not> chn < nW" by simp
  then show ?case using "0.prems" by (subst chnLoop.simps) simp
next
  case (Suc d)
  then have lt: "chn < nW" and d: "d = nW - Suc chn" by simp_all
  define idx where "idx = engineIndex ps chn"
  have idx: "(if \<not> sampleSpectrumUniformly ps then chn else fftIdx) = idx"
    using Suc.prems(2) by (simp add: idx_def engineIndex_def)
  have len: "length engines = length (ffts ps)" using Suc.prems(1) by (rule list_all2_lengthD)
  have i1: "idx < length engines" using assms(4) lt len by (simp add: idx_def)
  have i2: "chn < length (bandBinIndices ps)" "1 < length (bandBinIndices ps ! chn)"
    "chn < length (normFactor ps)"
    using assms(1,2,3) lt by simp_all
  define engines1 where "engines1 = engines[idx :=
      FFT_process (signal frame ear (int chn)) (windowSizes ps ! chn) (engines ! idx)]"
  have same1: "list_all2 sameEngine engines1 (ffts ps)"
    unfolding engines1_def using Suc.prems(1) i1 len by (intro sameEngines_update) simp_all
  have "sameEngine (engines ! idx) (ffts ps ! idx)"
    using Suc.prems(1) i1 len by (simp add: list_all2_nthD2)
  then have e1: "engines1 ! idx = loadedEngine frame ps ear chn"
    unfolding engines1_def loadedEngine_def idx_def [symmetric]
    using i1 by (simp add: sameEngine_process)
  have u: "[chn..<nW] = chn # [Suc chn..<nW]" using lt by (simp add: upt_conv_Cons)
  have u2: "sampleSpectrumUniformly ps \<longrightarrow> idx = 0" by (simp add: idx_def engineIndex_def)
  from Suc.hyps(1) [OF d same1 u2, of
      "written @ bandPowers getReal getImag frame ps ear chn" "reads @ bandReads ps chn"]
  obtain fftIdx' engines' where r:
    "chnLoop getReal getImag frame ps ear nW (Suc chn)
        (idx, engines1, written @ bandPowers getReal getImag frame ps ear chn, reads @ bandReads ps chn)
      = Inr (fftIdx', engines',
             (written @ bandPowers getReal getImag frame ps ear chn)
               @ concat (map (bandPowers getReal getImag frame ps ear) [Suc chn..<nW]),
             (reads @ bandReads ps chn) @ concat (map (bandReads ps) [Suc chn..<nW]))"
    "list_all2 sameEngine engines' (ffts ps)" "sampleSpectrumUniformly ps \<longrightarrow> fftIdx' = 0"
    by blast
  have step: "chnLoop getReal getImag frame ps ear nW chn (fftIdx, engines, written, reads)
      = chnLoop getReal getImag frame ps ear nW (Suc chn)
        (idx, engines1, written @ bandPowers getReal getImag frame ps ear chn, reads @ bandReads ps chn)"
    apply (subst chnLoop.simps)
    apply (simp only: lt if_True Let_def idx i1 i2 not_True_eq_False if_False simp_thms
        engines1_def [symmetric] e1 binWhile_eq prod.case)
    apply (simp add: bandPowers_def bandReads_def idx_def)
    done
  show ?case unfolding step r(1) u using r(2,3) by simp
qed

lemma earLoop_eq:
  assumes "nW \<le> length (bandBinIndices ps)" and "\<forall>c<nW. 1 < length (bandBinIndices ps ! c)"
    and "nW \<le> length (normFactor ps)" and "\<forall>c<nW. engineIndex ps c < length (ffts ps)"
  shows "list_all2 sameEngine engines (ffts ps) \<Longrightarrow> sampleSpectrumUniformly ps \<longrightarrow> fftIdx = 0 \<Longrightarrow>
    \<exists>fftIdx' engines'.
       earLoop getReal getImag frame ps nW ear (fftIdx, engines, spectra, reads)
         = Inr (fftIdx', engines',
                spectra @ map (\<lambda>e. concat (map (bandPowers getReal getImag frame ps (int e)) [0..<nW]))
                              [ear..<nat (nEars frame)],
                reads @ concat (map (\<lambda>e. concat (map (bandReads ps) [0..<nW]))
                              [ear..<nat (nEars frame)]))
       \<and> list_all2 sameEngine engines' (ffts ps)"
proof (induction "nat (nEars frame) - ear" arbitrary: ear fftIdx engines spectra reads)
  case 0
  then have "\<not> int ear < nEars frame" by simp
  moreover from 0 have "[ear..<nat (nEars frame)] = []" by simp
  ultimately show ?case using "0.prems" by (subst earLoop.simps) simp
next
  case (Suc d)
  then have lt: "int ear < nEars frame" and lt': "ear < nat (nEars frame)"
    and d: "d = nat (nEars frame) - Suc ear" by simp_all
  from chnLoop_eq [OF assms Suc.prems, of getReal getImag frame "int ear" 0 "[]" reads]
  obtain fftIdx1 engines1 where c:
    "chnLoop getReal getImag frame ps (int ear) nW 0 (fftIdx, engines, [], reads)
       = Inr (fftIdx1, engines1,
              [] @ concat (map (bandPowers getReal getImag frame ps (int ear)) [0..<nW]),
              reads @ concat (map (bandReads ps) [0..<nW]))"
    "list_all2 sameEngine engines1 (ffts ps)" "sampleSpectrumUniformly ps \<longrightarrow> fftIdx1 = 0"
    by blast
  from Suc.hyps(1) [OF d c(2,3), of
      "spectra @ [concat (map (bandPowers getReal getImag frame ps (int ear)) [0..<nW])]"
      "reads @ concat (map (bandReads ps) [0..<nW])"]
  obtain fftIdx' engines' where r:
    "earLoop getReal getImag frame ps nW (Suc ear)
        (fftIdx1, engines1,
         spectra @ [concat (map (bandPowers getReal getImag frame ps (int ear)) [0..<nW])],
         reads @ concat (map (bandReads ps) [0..<nW]))
      = Inr (fftIdx', engines',
             (spectra @ [concat (map (bandPowers getReal getImag frame ps (int ear)) [0..<nW])])
               @ map (\<lambda>e. concat (map (bandPowers getReal getImag frame ps (int e)) [0..<nW]))
                              [Suc ear..<nat (nEars frame)],
             (reads @ concat (map (bandReads ps) [0..<nW]))
               @ concat (map (\<lambda>e. concat (map (bandReads ps) [0..<nW]))
                              [Suc ear..<nat (nEars frame)]))"
    "list_all2 sameEngine engines' (ffts ps)"
    by blast
  have u: "[ear..<nat (nEars frame)] = ear # [Suc ear..<nat (nEars frame)]"
    using lt' by (simp add: upt_conv_Cons)
  have step: "earLoop getReal getImag frame ps nW ear (fftIdx, engines, spectra, reads)
      = earLoop getReal getImag frame ps nW (Suc ear)
        (fftIdx1, engines1,
         spectra @ [concat (map (bandPowers getReal getImag frame ps (int ear)) [0..<nW])],
         reads @ concat (map (bandReads ps) [0..<nW]))"
    by (subst earLoop.simps) (simp add: lt c(1))
  show ?case unfolding step r(1) u using r(2) by simp
qed

lemma processInternal_eq:
  assumes "length (windowSizes ps) \<le> length (bandBinIndices ps)"
    and "\<forall>c<length (windowSizes ps). 1 < length (bandBinIndices ps ! c)"
    and "length (windowSizes ps) \<le> length (normFactor ps)"
    and "\<forall>c<length (windowSizes ps). engineIndex ps c < length (ffts ps)"
  shows "\<exists>r. processInternal getReal getImag frame ps = Inr r
     \<and> spectrum r = map (\<lambda>e. concat (map (bandPowers getReal getImag frame ps (int e))
                                     [0..<length (windowSizes ps)]))
                      [0..<nat (nEars frame)]
     \<and> binReads r = concat (map (\<lambda>e. concat (map (bandReads ps) [0..<length (windowSizes ps)]))
                      [0..<nat (nEars frame)])
     \<and> list_all2 sameEngine (ffts (object r)) (ffts ps)"
proof -
  from earLoop_eq [OF assms sameEngine_refl, of 0 getReal getImag frame 0 "[]" "[]"]
  obtain fftIdx' engines' where
    "earLoop getReal getImag frame ps (length (windowSizes ps)) 0 (0, ffts ps, [], [])
         = Inr (fftIdx', engines',
                [] @ map (\<lambda>e. concat (map (bandPowers getReal getImag frame ps (int e))
                                     [0..<length (windowSizes ps)]))
                              [0..<nat (nEars frame)],
                [] @ concat (map (\<lambda>e. concat (map (bandReads ps) [0..<length (windowSizes ps)]))
                              [0..<nat (nEars frame)]))"
    "list_all2 sameEngine engines' (ffts ps)"
    by auto
  then show ?thesis unfolding processInternal_def Let_def by simp
qed

lemma configured_ready:
  assumes "initializeInternal input ps0 = Done ps"
  shows "length (windowSizes ps) \<le> length (bandBinIndices ps)"
    and "\<forall>c<length (windowSizes ps). 1 < length (bandBinIndices ps ! c)"
    and "length (windowSizes ps) \<le> length (normFactor ps)"
    and "\<forall>c<length (windowSizes ps). engineIndex ps c < length (ffts ps)"
proof -
  note d = initializeInternal_Done [OF assms]
  have w: "windowSizes ps = windowSizes ps0" and u: "sampleSpectrumUniformly ps = sampleSpectrumUniformly ps0"
    using d(6) by simp_all
  show "length (windowSizes ps) \<le> length (bandBinIndices ps)" unfolding w d(1) by simp
  show "\<forall>c<length (windowSizes ps). 1 < length (bandBinIndices ps ! c)" unfolding w d(1) by simp
  show "length (windowSizes ps) \<le> length (normFactor ps)" unfolding w d(2) by simp
  show "\<forall>c<length (windowSizes ps). engineIndex ps c < length (ffts ps)"
    unfolding w d(3) engineIndex_def u using d(7) by (simp add: fftSizes_def)
qed

lemma engine_size:
  assumes "initializeInternal input ps0 = Done ps" and "chn < length (windowSizes ps0)"
  shows "fft_size (ffts ps ! engineIndex ps chn) = fftSizes input ps0 ! chn"
proof -
  note d = initializeInternal_Done [OF assms(1)]
  have u: "sampleSpectrumUniformly ps = sampleSpectrumUniformly ps0" using d(6) by simp
  show ?thesis
    unfolding d(3) engineIndex_def u using assms(2)
    by (simp add: fftSizes_def FFT_initialize_def new_FFT_def)
qed

lemma binReads_cases:
  assumes "initializeInternal input ps0 = Done ps"
    and "processInternal getReal getImag frame ps = Inr r" and "(idx, k) \<in> set (binReads r)"
  obtains chn where "chn < length (windowSizes ps0)" and "idx = engineIndex ps chn"
    and "bandBinIndices ps ! chn ! 0 \<le> k" and "k < bandBinIndices ps ! chn ! 1"
proof -
  from processInternal_eq [OF configured_ready [OF assms(1)], of getReal getImag frame] assms(2)
  have "binReads r = concat (map (\<lambda>e. concat (map (bandReads ps) [0..<length (windowSizes ps)]))
                      [0..<nat (nEars frame)])"
    by auto
  with assms(3) obtain chn where c: "chn < length (windowSizes ps)" "(idx, k) \<in> set (bandReads ps chn)"
    by (auto split: if_splits)
  have w: "windowSizes ps = windowSizes ps0" using initializeInternal_Done(6) [OF assms(1)] by simp
  from c(2) have "idx = engineIndex ps chn" "bandBinIndices ps ! chn ! 0 \<le> k"
    "k < bandBinIndices ps ! chn ! 1"
    by (auto simp: bandReads_def)
  then show ?thesis using that c(1) w by simp
qed

subsection \<open>Evaluation at the concrete objects\<close>

lemma nextPowerOfTwo_values:
  "nextPowerOfTwo 1024 = 1024" "nextPowerOfTwo 256 = 256" "nextPowerOfTwo 100 = 128"
  by (simp_all add: nextPowerOfTwo_def nextPowerOfTwoFrom.simps)

lemmas example_defs =
  exampleInput_def exampleSpectrum_def dcSpectrum_def narrowSpectrum_def negativeSpectrum_def
  uniformSpectrum_def shortInput_def wideInput_def emptyBandSpectrum_def ascendingSpectrum_def
  swappedSpectrum_def longWindowSpectrum_def longInput_def new_PowerSpectrum_def

lemmas bin_defs =
  fftSizes_def binIndex_def loBin_def hiBin_def nyqIdx_def c_div_def c_mod_def
  nextPowerOfTwo_values

lemma upt_2: "[0..<2] = [0, Suc 0]"
  by (simp add: numeral_2_eq_2)

lemma ceiling_one_over:
  "\<lceil>(1::real) / 2\<rceil> = 1" "\<lceil>(1::real) / 8\<rceil> = 1"
  by (simp_all add: ceiling_eq_iff)

lemma example_is_Done: "is_Done (initializeInternal exampleInput exampleSpectrum)"
  unfolding initializeInternal_is_Done
  by (simp add: example_defs bin_defs All_less_Suc eval_nat_numeral)

lemma example_bins:
  "bandBinIndices (object_of (initializeInternal exampleInput exampleSpectrum)) = [[1, 32], [8, 64]]"
  unfolding initializeInternal_Done(1) [OF is_Done_object [OF example_is_Done]]
  by (simp add: example_defs bin_defs upt_2)

lemma example_prior_fields:
  "windowSizes (object_of (initializeInternal exampleInput exampleSpectrum)) = [1024, 256]"
  "sampleSpectrumUniformly (object_of (initializeInternal exampleInput exampleSpectrum)) = False"
  "map fft_size (ffts (object_of (initializeInternal exampleInput exampleSpectrum))) = [1024, 256]"
  using initializeInternal_Done(3,6) [OF is_Done_object [OF example_is_Done]]
  by (simp_all add: example_defs bin_defs FFT_initialize_def new_FFT_def)

lemma example_prior_rejected:
  "initializeInternal wideInput (object_of (initializeInternal exampleInput exampleSpectrum))
     = Aborted ShapeMismatch
         ((object_of (initializeInternal exampleInput exampleSpectrum))\<lparr>ffts := []\<rparr>)"
  by (rule initializeInternal_shape) (simp add: example_prior_fields, simp add: example_defs)

lemma dc_is_Done: "is_Done (initializeInternal exampleInput dcSpectrum)"
  unfolding initializeInternal_is_Done
  by (simp add: example_defs bin_defs All_less_Suc eval_nat_numeral)

lemma dc_bins:
  "bandBinIndices (object_of (initializeInternal exampleInput dcSpectrum)) = [[1, 32], [8, 64]]"
  unfolding initializeInternal_Done(1) [OF is_Done_object [OF dc_is_Done]]
  by (simp add: example_defs bin_defs upt_2)

lemma dc_prior_fields:
  "windowSizes (object_of (initializeInternal exampleInput dcSpectrum)) = [1024, 256]"
  "sampleSpectrumUniformly (object_of (initializeInternal exampleInput dcSpectrum)) = False"
  "map fft_size (ffts (object_of (initializeInternal exampleInput dcSpectrum))) = [1024, 256]"
  using initializeInternal_Done(3,6) [OF is_Done_object [OF dc_is_Done]]
  by (simp_all add: example_defs bin_defs FFT_initialize_def new_FFT_def)

lemma dc_reads:
  "\<exists>r. processInternal zeroAccessor zeroAccessor exampleInput
          (object_of (initializeInternal exampleInput dcSpectrum)) = Inr r
       \<and> (0, 31) \<in> set (binReads r)"
proof -
  from processInternal_eq [OF configured_ready [OF is_Done_object [OF dc_is_Done]],
      of zeroAccessor zeroAccessor exampleInput]
  obtain r where r: "processInternal zeroAccessor zeroAccessor exampleInput
          (object_of (initializeInternal exampleInput dcSpectrum)) = Inr r"
    "binReads r = concat (map (\<lambda>e. concat (map (bandReads (object_of (initializeInternal exampleInput dcSpectrum)))
         [0..<length (windowSizes (object_of (initializeInternal exampleInput dcSpectrum)))]))
                      [0..<nat (nEars exampleInput)])"
    by blast
  have "(0, 31) \<in> set (bandReads (object_of (initializeInternal exampleInput dcSpectrum)) 0)"
    by (simp add: bandReads_def engineIndex_def dc_prior_fields dc_bins)
  moreover have "0 \<in> set [0..<length (windowSizes (object_of (initializeInternal exampleInput dcSpectrum)))]"
    by (simp add: dc_prior_fields)
  ultimately have "(0, 31) \<in> set (concat (map (bandReads (object_of (initializeInternal exampleInput dcSpectrum)))
         [0..<length (windowSizes (object_of (initializeInternal exampleInput dcSpectrum)))]))"
    by (rule in_concat_map)
  moreover have "0 \<in> set [0..<nat (nEars exampleInput)]" by (simp add: example_defs)
  ultimately have "(0, 31) \<in> set (binReads r)" unfolding r(2) by (rule in_concat_map)
  with r(1) show ?thesis by blast
qed

lemma narrow_is_Done: "is_Done (initializeInternal exampleInput narrowSpectrum)"
  unfolding initializeInternal_is_Done
  by (simp add: example_defs bin_defs All_less_Suc eval_nat_numeral ceiling_one_over)

lemma narrow_bins:
  "bandBinIndices (object_of (initializeInternal exampleInput narrowSpectrum)) = [[1, 1], [1, 64]]"
  unfolding initializeInternal_Done(1) [OF is_Done_object [OF narrow_is_Done]]
  by (simp add: example_defs bin_defs upt_2 ceiling_one_over)

lemma negative_is_Done: "is_Done (initializeInternal exampleInput negativeSpectrum)"
  unfolding initializeInternal_is_Done
  by (simp add: example_defs bin_defs All_less_Suc eval_nat_numeral)

lemma negative_bins:
  "bandBinIndices (object_of (initializeInternal exampleInput negativeSpectrum))
     = [[- 1024, 32], [8, 64]]"
  unfolding initializeInternal_Done(1) [OF is_Done_object [OF negative_is_Done]]
  by (simp add: example_defs bin_defs upt_2)

lemma uniform_short_is_Done: "is_Done (initializeInternal shortInput uniformSpectrum)"
  unfolding initializeInternal_is_Done
  by (simp add: example_defs bin_defs All_less_Suc eval_nat_numeral)

lemma empty_band_example:
  "\<exists>ps. initializeInternal exampleInput emptyBandSpectrum = Aborted (EmptyBand 1) ps"
proof -
  have h: "nChannels exampleInput = int (length (windowSizes emptyBandSpectrum))"
    "length (bandFreqsHz emptyBandSpectrum) = length (windowSizes emptyBandSpectrum) + 1"
    "\<not> anyAscendingValues (windowSizes emptyBandSpectrum)"
    "(1::nat) < length (windowSizes emptyBandSpectrum)"
    "\<lceil>bandFreqsHz emptyBandSpectrum ! (1 + 1) * of_int (fftSizes exampleInput emptyBandSpectrum ! 1)
        / of_int (fs exampleInput)\<rceil> \<le> 0"
    "0 < \<lceil>bandFreqsHz emptyBandSpectrum ! (0 + 1) * of_int (fftSizes exampleInput emptyBandSpectrum ! 0)
        / of_int (fs exampleInput)\<rceil>"
    by (simp_all add: example_defs bin_defs)
  have k: "\<forall>k<(1::nat). 0 < \<lceil>bandFreqsHz emptyBandSpectrum ! (k + 1)
        * of_int (fftSizes exampleInput emptyBandSpectrum ! k) / of_int (fs exampleInput)\<rceil>"
    using h(6) by simp
  from empty_band_guard [of exampleInput emptyBandSpectrum 1] h k show ?thesis by blast
qed

lemma nextPowerOfTwo_49152: "nextPowerOfTwo 49152 = 65536"
  by (simp add: nextPowerOfTwo_def nextPowerOfTwoFrom.simps)

lemma upt_1: "[0..<1] = [0]"
  by simp

lemma swapped_is_Done: "is_Done (initializeInternal exampleInput swappedSpectrum)"
  unfolding initializeInternal_is_Done
  by (simp add: example_defs bin_defs All_less_Suc eval_nat_numeral)

lemma swapped_bins:
  "bandBinIndices (object_of (initializeInternal exampleInput swappedSpectrum)) = [[32, 1], [1, 64]]"
  unfolding initializeInternal_Done(1) [OF is_Done_object [OF swapped_is_Done]]
  by (simp add: example_defs bin_defs upt_2)

lemma swapped_fields:
  "windowSizes (object_of (initializeInternal exampleInput swappedSpectrum)) = [1024, 256]"
  "nChannels (outputBank (object_of (initializeInternal exampleInput swappedSpectrum))) = 32"
  using initializeInternal_Done(4,6) [OF is_Done_object [OF swapped_is_Done]]
  by (simp_all add: example_defs bin_defs upt_2)

lemma swapped_written:
  "\<exists>r. processInternal zeroAccessor zeroAccessor exampleInput
          (object_of (initializeInternal exampleInput swappedSpectrum)) = Inr r
       \<and> map length (spectrum r) = [63, 63]"
proof -
  from processInternal_eq [OF configured_ready [OF is_Done_object [OF swapped_is_Done]],
      of zeroAccessor zeroAccessor exampleInput]
  obtain r where r: "processInternal zeroAccessor zeroAccessor exampleInput
          (object_of (initializeInternal exampleInput swappedSpectrum)) = Inr r"
    "spectrum r = map (\<lambda>e. concat (map (bandPowers zeroAccessor zeroAccessor exampleInput
           (object_of (initializeInternal exampleInput swappedSpectrum)) (int e))
         [0..<length (windowSizes (object_of (initializeInternal exampleInput swappedSpectrum)))]))
                      [0..<nat (nEars exampleInput)]"
    by blast
  have e: "nat (nEars exampleInput) = 2" by (simp add: example_defs)
  have "map length (spectrum r) = [63, 63]"
    unfolding r(2) e by (simp add: swapped_fields swapped_bins bandPowers_def upt_2)
  with r(1) show ?thesis by (intro exI [of _ r]) simp
qed

lemma long_is_Done: "is_Done (initializeInternal longInput longWindowSpectrum)"
  unfolding initializeInternal_is_Done
  by (simp add: example_defs fftSizes_def binIndex_def nextPowerOfTwo_49152)

lemma long_factor:
  "normFactor (object_of (initializeInternal longInput longWindowSpectrum))
     = [2 / (- 1073741824 * (2 / 10 ^ 5)\<^sup>2)]"
  unfolding initializeInternal_Done(2) [OF is_Done_object [OF long_is_Done]]
  by (simp add: example_defs fftSizes_def nextPowerOfTwo_49152 normalisationFactor_def c_int_def
      power2_eq_square)

section \<open>The claims\<close>

subsection \<open>C1: The bin range of a channel\<close>

text \<open>
  C1. For every channel \<open>i\<close> of a successful \<open>initializeInternal\<close> with a positive sample
  rate, the bin range before clamping is \<open>binLo = ceil(bandFreqsHz[i] * fftSize[i] / fs)\<close>
  and \<open>binHi = ceil(bandFreqsHz[i+1] * fftSize[i] / fs)\<close> (the stored range is this one
  after the DC and Nyquist adjustments), and it is half open: a bin \<open>k\<close> lies in
  \<open>[binLo, binHi)\<close> exactly when its centre frequency \<open>k * fs / fftSize[i]\<close> lies in
  \<open>[bandFreqsHz[i], bandFreqsHz[i+1])\<close>. Doubles are read as real numbers.
\<close>

theorem C1_bin_range_half_open:
  assumes "initializeInternal input ps0 = Done ps" and "i < length (windowSizes ps0)"
    and "0 < fs input"
  shows "let n = fftSizes input ps0 ! i;
             binLo = \<lceil>bandFreqsHz ps0 ! i * of_int n / of_int (fs input)\<rceil>;
             binHi = \<lceil>bandFreqsHz ps0 ! (i + 1) * of_int n / of_int (fs input)\<rceil>
         in bandBinIndices ps ! i =
              [if binLo = 0 then 1 else binLo, if nyqIdx n \<le> binHi - 1 then nyqIdx n else binHi]
          \<and> (\<forall>k. (binLo \<le> k \<and> k < binHi)
                 = (bandFreqsHz ps0 ! i \<le> of_int k * of_int (fs input) / of_int n
                    \<and> of_int k * of_int (fs input) / of_int n < bandFreqsHz ps0 ! (i + 1)))"
proof -
  have n: "0 < fftSizes input ps0 ! i" using assms(2) by (rule fftSizes_pos)
  show ?thesis
    unfolding Let_def bandBinIndices_nth [OF assms(1,2)] loBin_def hiBin_def
    using binIndex_half_open [OF n assms(3)] unfolding binIndex_def by simp
qed

theorem C1_witness:
  "is_Done (initializeInternal exampleInput exampleSpectrum)
   \<and> (0::nat) < length (windowSizes exampleSpectrum) \<and> 0 < fs exampleInput
   \<and> fftSizes exampleInput exampleSpectrum ! 0 = 1024
   \<and> \<lceil>bandFreqsHz exampleSpectrum ! 0 * of_int 1024 / of_int (fs exampleInput)\<rceil> = 1
   \<and> \<lceil>bandFreqsHz exampleSpectrum ! (0 + 1) * of_int 1024 / of_int (fs exampleInput)\<rceil> = 32
   \<and> bandBinIndices (object_of (initializeInternal exampleInput exampleSpectrum)) ! 0 = [1, 32]
   \<and> ((1 \<le> (31::int) \<and> (31::int) < 32)
        = (bandFreqsHz exampleSpectrum ! 0 \<le> of_int 31 * of_int (fs exampleInput) / of_int 1024
           \<and> of_int 31 * of_int (fs exampleInput) / of_int 1024 < bandFreqsHz exampleSpectrum ! (0 + 1)))"
proof -
  have i: "(0::nat) < length (windowSizes exampleSpectrum)" and r: "0 < fs exampleInput"
    by (simp_all add: example_defs)
  have n: "fftSizes exampleInput exampleSpectrum ! 0 = 1024" by (simp add: example_defs bin_defs)
  have lo: "\<lceil>bandFreqsHz exampleSpectrum ! 0 * of_int 1024 / of_int (fs exampleInput)\<rceil> = 1"
    and hi: "\<lceil>bandFreqsHz exampleSpectrum ! (0 + 1) * of_int 1024 / of_int (fs exampleInput)\<rceil> = 32"
    by (simp_all add: example_defs)
  note th = C1_bin_range_half_open [OF is_Done_object [OF example_is_Done] i r,
      unfolded Let_def n lo hi]
  from th have "(1 \<le> (31::int) \<and> (31::int) < 32)
        = (bandFreqsHz exampleSpectrum ! 0 \<le> of_int 31 * of_int (fs exampleInput) / of_int 1024
           \<and> of_int 31 * of_int (fs exampleInput) / of_int 1024 < bandFreqsHz exampleSpectrum ! (0 + 1))"
    by blast
  then show ?thesis using example_is_Done i r n lo hi example_bins by simp
qed

subsection \<open>C2: The check for an empty band\<close>

text \<open>
  C2. The property: \<open>initializeInternal\<close> fails with EmptyBand, naming the channel,
  whenever the bin range of a channel has zero or negative width after the DC and
  Nyquist clamping, so that every accepted channel has \<open>binHi - binLo \<ge> 1\<close>. The code does
  not do this. Its assertion (line 83, "No components found in band number i") looks at
  the upper bin only and runs before the clamping, and two runs show bands without any
  bin being accepted. With the band edges 0, 15.625 and 8000 Hz the first band is stored
  as \<open>[1, 1)\<close>. With the band edges 1000, 20 and 8000 Hz the first band is stored as
  \<open>[32, 1)\<close>; the declared output width is \<open>(1 - 32) + (64 - 1) = 32\<close>, and
  \<open>processInternal\<close> writes 63 values for each ear.
\<close>

theorem C2_empty_band_accepted:
  "is_Done (initializeInternal exampleInput narrowSpectrum)
   \<and> bandBinIndices (object_of (initializeInternal exampleInput narrowSpectrum)) ! 0 = [1, 1]
   \<and> is_Done (initializeInternal exampleInput swappedSpectrum)
   \<and> bandBinIndices (object_of (initializeInternal exampleInput swappedSpectrum)) = [[32, 1], [1, 64]]
   \<and> nChannels (outputBank (object_of (initializeInternal exampleInput swappedSpectrum))) = 32
   \<and> \<not> isl (processInternal zeroAccessor zeroAccessor exampleInput
              (object_of (initializeInternal exampleInput swappedSpectrum)))
   \<and> map length (spectrum (projr (processInternal zeroAccessor zeroAccessor exampleInput
              (object_of (initializeInternal exampleInput swappedSpectrum))))) = [63, 63]"
proof -
  from swapped_written obtain r where rr:
    "processInternal zeroAccessor zeroAccessor exampleInput
          (object_of (initializeInternal exampleInput swappedSpectrum)) = Inr r
     \<and> map length (spectrum r) = [63, 63]" ..
  note r = rr [THEN conjunct1] rr [THEN conjunct2]
  show ?thesis
    using narrow_is_Done swapped_is_Done r(2) unfolding r(1)
    by (simp add: narrow_bins swapped_bins swapped_fields)
qed

subsection \<open>C3: The sizes of the engines\<close>

text \<open>
  C3, as the code has it. After a successful \<open>initializeInternal\<close> with uniform sampling
  there is exactly one engine, and its size is the smallest power of two that is at least
  the number of samples per channel of the input bank (which line 53 takes for the
  largest window size; the window sizes themselves are not read). Without uniform
  sampling there is one engine per channel, channel \<open>i\<close> having the smallest power of two
  that is at least \<open>windowSizes[i]\<close>. Every engine has been initialised.
\<close>

theorem C3_fft_sizing:
  assumes "initializeInternal input ps0 = Done ps"
  shows "(sampleSpectrumUniformly ps0 \<longrightarrow>
            ffts ps = [FFT_initialize (new_FFT (nextPowerOfTwo (nSamples input)))])
       \<and> (\<not> sampleSpectrumUniformly ps0 \<longrightarrow>
            ffts ps = map (\<lambda>w. FFT_initialize (new_FFT (nextPowerOfTwo w))) (windowSizes ps0))
       \<and> (\<forall>m. (\<exists>k. nextPowerOfTwo m = 2 ^ k) \<and> m \<le> nextPowerOfTwo m
              \<and> (\<forall>j. m \<le> 2 ^ j \<longrightarrow> nextPowerOfTwo m \<le> 2 ^ j))"
  using initializeInternal_Done(3) [OF assms] nextPowerOfTwo_smallest
  by (simp add: fftSizes_def comp_def)

theorem C3_witness:
  "is_Done (initializeInternal shortInput uniformSpectrum)
   \<and> sampleSpectrumUniformly uniformSpectrum
   \<and> map fft_size (ffts (object_of (initializeInternal shortInput uniformSpectrum))) = [128]
   \<and> is_Done (initializeInternal exampleInput exampleSpectrum)
   \<and> \<not> sampleSpectrumUniformly exampleSpectrum
   \<and> map fft_size (ffts (object_of (initializeInternal exampleInput exampleSpectrum))) = [1024, 256]"
proof -
  have u: "sampleSpectrumUniformly uniformSpectrum" "\<not> sampleSpectrumUniformly exampleSpectrum"
    by (simp_all add: example_defs)
  note a = C3_fft_sizing [OF is_Done_object [OF uniform_short_is_Done]]
    and b = C3_fft_sizing [OF is_Done_object [OF example_is_Done]]
  from a u have "ffts (object_of (initializeInternal shortInput uniformSpectrum))
      = [FFT_initialize (new_FFT (nextPowerOfTwo (nSamples shortInput)))]" by blast
  then have a': "map fft_size (ffts (object_of (initializeInternal shortInput uniformSpectrum))) = [128]"
    by (simp add: example_defs bin_defs FFT_initialize_def new_FFT_def)
  from b u have "ffts (object_of (initializeInternal exampleInput exampleSpectrum))
      = map (\<lambda>w. FFT_initialize (new_FFT (nextPowerOfTwo w))) (windowSizes exampleSpectrum)" by blast
  then have b': "map fft_size (ffts (object_of (initializeInternal exampleInput exampleSpectrum))) = [1024, 256]"
    by (simp add: example_defs bin_defs FFT_initialize_def new_FFT_def)
  show ?thesis using uniform_short_is_Done example_is_Done u a' b' by blast
qed

text \<open>
  C3 as stated fails: an object with windows of 1024 and 256 samples and uniform
  sampling, initialised for an input bank with 100 samples per channel, gets one engine
  of size 128, which is below the largest window size.
\<close>

theorem C3_counterexample:
  "is_Done (initializeInternal shortInput uniformSpectrum)
   \<and> sampleSpectrumUniformly uniformSpectrum
   \<and> windowSizes uniformSpectrum = [1024, 256]
   \<and> map fft_size (ffts (object_of (initializeInternal shortInput uniformSpectrum))) = [128]
   \<and> nextPowerOfTwo 1024 = 1024"
  using uniform_short_is_Done
    initializeInternal_Done(3) [OF is_Done_object [OF uniform_short_is_Done]]
  by (simp add: example_defs bin_defs FFT_initialize_def new_FFT_def)

subsection \<open>C4: DC and Nyquist exclusion\<close>

text \<open>
  C4. After a successful \<open>initializeInternal\<close>: a channel whose computed lower bin
  \<open>ceil(edge * fftSize / fs)\<close> is 0 has the effective lower bin 1, and every bin index
  \<open>k\<close> of the stored range \<open>[binLo, binHi)\<close> of a channel is below
  \<open>floor(fftSize / 2) + (1 if fftSize is odd else 0)\<close>. Every bin that a following
  \<open>processInternal\<close> reads from an engine is below that bound for the size of the engine.
\<close>

theorem C4_dc_and_nyquist_excluded:
  assumes "initializeInternal input ps0 = Done ps" and "i < length (windowSizes ps0)"
  shows "(\<lceil>bandFreqsHz ps0 ! i * of_int (fftSizes input ps0 ! i) / of_int (fs input)\<rceil> = 0
            \<longrightarrow> bandBinIndices ps ! i ! 0 = 1)
       \<and> (\<forall>k. bandBinIndices ps ! i ! 0 \<le> k \<and> k < bandBinIndices ps ! i ! 1
            \<longrightarrow> k < fftSizes input ps0 ! i div 2 + (if odd (fftSizes input ps0 ! i) then 1 else 0))
       \<and> (\<forall>getReal getImag frame r idx k.
             processInternal getReal getImag frame ps = Inr r \<and> (idx, k) \<in> set (binReads r)
            \<longrightarrow> k < fft_size (ffts ps ! idx) div 2 + (if odd (fft_size (ffts ps ! idx)) then 1 else 0))"
proof -
  have lo: "\<lceil>bandFreqsHz ps0 ! i * of_int (fftSizes input ps0 ! i) / of_int (fs input)\<rceil> = 0
            \<longrightarrow> bandBinIndices ps ! i ! 0 = 1"
    unfolding bandBinIndices_nth [OF assms] by (simp add: loBin_def binIndex_def)
  have hi: "\<forall>k. bandBinIndices ps ! i ! 0 \<le> k \<and> k < bandBinIndices ps ! i ! 1
            \<longrightarrow> k < fftSizes input ps0 ! i div 2 + (if odd (fftSizes input ps0 ! i) then 1 else 0)"
    using stored_range_below_nyquist [OF assms] by blast
  have rd: "k < fft_size (ffts ps ! idx) div 2 + (if odd (fft_size (ffts ps ! idx)) then 1 else 0)"
    if p: "processInternal getReal getImag frame ps = Inr r" and m: "(idx, k) \<in> set (binReads r)"
    for getReal getImag frame r idx k
  proof -
    from assms(1) p m obtain chn where c: "chn < length (windowSizes ps0)"
      "idx = engineIndex ps chn" "k < bandBinIndices ps ! chn ! 1"
      by (rule binReads_cases)
    show ?thesis
      unfolding c(2) engine_size [OF assms(1) c(1)]
      using assms(1) c(1,3) by (rule stored_range_below_nyquist)
  qed
  from lo hi rd show ?thesis by blast
qed

theorem C4_witness:
  "is_Done (initializeInternal exampleInput dcSpectrum)
   \<and> (0::nat) < length (windowSizes dcSpectrum)
   \<and> \<lceil>bandFreqsHz dcSpectrum ! 0 * of_int (fftSizes exampleInput dcSpectrum ! 0)
        / of_int (fs exampleInput)\<rceil> = 0
   \<and> bandBinIndices (object_of (initializeInternal exampleInput dcSpectrum)) ! 0 = [1, 32]
   \<and> fftSizes exampleInput dcSpectrum ! 0 = 1024
   \<and> (31::int) < 1024 div 2 + (if odd (1024::int) then 1 else 0)
   \<and> \<not> isl (processInternal zeroAccessor zeroAccessor exampleInput
              (object_of (initializeInternal exampleInput dcSpectrum)))
   \<and> (0, 31) \<in> set (binReads (projr (processInternal zeroAccessor zeroAccessor exampleInput
              (object_of (initializeInternal exampleInput dcSpectrum)))))
   \<and> fft_size (ffts (object_of (initializeInternal exampleInput dcSpectrum)) ! 0) = 1024"
proof -
  have i: "(0::nat) < length (windowSizes dcSpectrum)" by (simp add: example_defs)
  note th = C4_dc_and_nyquist_excluded [OF is_Done_object [OF dc_is_Done] i]
  have lo: "\<lceil>bandFreqsHz dcSpectrum ! 0 * of_int (fftSizes exampleInput dcSpectrum ! 0)
        / of_int (fs exampleInput)\<rceil> = 0"
    by (simp add: example_defs bin_defs)
  have n: "fftSizes exampleInput dcSpectrum ! 0 = 1024" by (simp add: example_defs bin_defs)
  from dc_reads obtain r where r: "processInternal zeroAccessor zeroAccessor exampleInput
          (object_of (initializeInternal exampleInput dcSpectrum)) = Inr r"
    "(0, 31) \<in> set (binReads r)" by blast
  have e: "fft_size (ffts (object_of (initializeInternal exampleInput dcSpectrum)) ! 0) = 1024"
    using dc_prior_fields(3) by (metis nth_Cons_0 nth_map length_map length_greater_0_conv list.discI)
  from th lo have a: "bandBinIndices (object_of (initializeInternal exampleInput dcSpectrum)) ! 0 ! 0 = 1"
    by blast
  from th r have "(31::int) < fft_size (ffts (object_of (initializeInternal exampleInput dcSpectrum)) ! 0) div 2
      + (if odd (fft_size (ffts (object_of (initializeInternal exampleInput dcSpectrum)) ! 0)) then 1 else 0)"
    by blast
  then have b: "(31::int) < 1024 div 2 + (if odd (1024::int) then 1 else 0)" unfolding e .
  show ?thesis
    using dc_is_Done i lo n a b e Inr_projr [OF r(1)] r(2) by (simp add: dc_bins)
qed

subsection \<open>C5: The output of processInternal\<close>

text \<open>
  C5. After a successful \<open>initializeInternal\<close>, \<open>processInternal\<close> returns normally and
  writes, for each ear in turn, the concatenation over the channels in their declared
  order of the values \<open>normFactor[chn] * (re * re + im * im)\<close> for the bins \<open>k\<close> from
  \<open>binLo[chn]\<close> up to but excluding \<open>binHi[chn]\<close>, where \<open>re\<close> and \<open>im\<close> are what the selected
  engine returns for bin \<open>k\<close> after it was given \<open>windowSizes[chn]\<close> samples of that ear and
  channel; the selected engine is engine 0 with uniform sampling and engine \<open>chn\<close>
  otherwise. \<open>getReal\<close> and \<open>getImag\<close> are arbitrary.
\<close>

theorem C5_process_output:
  assumes "initializeInternal input ps0 = Done ps"
  shows "\<exists>r. processInternal getReal getImag frame ps = Inr r
     \<and> spectrum r =
         map (\<lambda>ear. concat (map (\<lambda>chn.
                map (\<lambda>k. let engine = FFT_process (signal frame (int ear) (int chn))
                                         (windowSizes ps ! chn)
                                         (ffts ps ! (if sampleSpectrumUniformly ps then 0 else chn));
                              re = getReal engine k;
                              im = getImag engine k
                          in normFactor ps ! chn * (re * re + im * im))
                    [bandBinIndices ps ! chn ! 0..bandBinIndices ps ! chn ! 1 - 1])
                [0..<length (windowSizes ps)]))
           [0..<nat (nEars frame)]"
proof -
  from processInternal_eq [OF configured_ready [OF assms], of getReal getImag frame]
  obtain r where r: "processInternal getReal getImag frame ps = Inr r"
    "spectrum r = map (\<lambda>e. concat (map (bandPowers getReal getImag frame ps (int e))
                                     [0..<length (windowSizes ps)]))
                      [0..<nat (nEars frame)]"
    by blast
  have bp: "bandPowers getReal getImag frame ps (int ear) =
      (\<lambda>chn. map (\<lambda>k. let engine = FFT_process (signal frame (int ear) (int chn))
                                         (windowSizes ps ! chn)
                                         (ffts ps ! (if sampleSpectrumUniformly ps then 0 else chn));
                              re = getReal engine k;
                              im = getImag engine k
                          in normFactor ps ! chn * (re * re + im * im))
                    [bandBinIndices ps ! chn ! 0..bandBinIndices ps ! chn ! 1 - 1])" for ear
    by (rule ext) (simp add: bandPowers_def loadedEngine_def engineIndex_def Let_def)
  show ?thesis using r unfolding bp by blast
qed

theorem C5_witness:
  "is_Done (initializeInternal exampleInput exampleSpectrum)
   \<and> \<not> isl (processInternal zeroAccessor zeroAccessor exampleInput
              (object_of (initializeInternal exampleInput exampleSpectrum)))
   \<and> spectrum (projr (processInternal zeroAccessor zeroAccessor exampleInput
              (object_of (initializeInternal exampleInput exampleSpectrum))))
       = [replicate 87 0, replicate 87 0]"
proof -
  from C5_process_output [OF is_Done_object [OF example_is_Done],
      of zeroAccessor zeroAccessor exampleInput]
  obtain r where r: "processInternal zeroAccessor zeroAccessor exampleInput
              (object_of (initializeInternal exampleInput exampleSpectrum)) = Inr r"
    and s: "spectrum r =
         map (\<lambda>ear. concat (map (\<lambda>chn.
                map (\<lambda>k. let engine = FFT_process (signal exampleInput (int ear) (int chn))
                                 (windowSizes (object_of (initializeInternal exampleInput exampleSpectrum)) ! chn)
                                 (ffts (object_of (initializeInternal exampleInput exampleSpectrum))
                                    ! (if sampleSpectrumUniformly (object_of (initializeInternal exampleInput exampleSpectrum))
                                       then 0 else chn));
                              re = zeroAccessor engine k;
                              im = zeroAccessor engine k
                          in normFactor (object_of (initializeInternal exampleInput exampleSpectrum)) ! chn
                               * (re * re + im * im))
                    [bandBinIndices (object_of (initializeInternal exampleInput exampleSpectrum)) ! chn ! 0
                     ..bandBinIndices (object_of (initializeInternal exampleInput exampleSpectrum)) ! chn ! 1 - 1])
                [0..<length (windowSizes (object_of (initializeInternal exampleInput exampleSpectrum)))]))
           [0..<nat (nEars exampleInput)]"
    by blast
  have e: "nat (nEars exampleInput) = 2" by (simp add: example_defs)
  have "spectrum r = [replicate 87 0, replicate 87 0]"
    unfolding s e
    by (simp add: example_prior_fields example_bins zeroAccessor_def upt_2 map_replicate_const
        replicate_add [symmetric])
  then show ?thesis using example_is_Done Inr_projr [OF r] by simp
qed

subsection \<open>C6: The declared output width\<close>

text \<open>
  C6, as the code has it. For every accepted configuration the declared output width
  per ear (the channel count of the output bank) is the sum over the channels of
  \<open>binHi[i] - binLo[i]\<close> after clamping. When every computed lower bin
  \<open>ceil(bandFreqsHz[i] * fftSize[i] / fs)\<close> is non-negative, the total does not exceed the
  sum over the channels of \<open>fftSize[i] / 2\<close>.
\<close>

theorem C6_output_width:
  assumes "initializeInternal input ps0 = Done ps"
  shows "nChannels (outputBank ps)
           = sum_list (map (\<lambda>i. bandBinIndices ps ! i ! 1 - bandBinIndices ps ! i ! 0)
               [0..<length (windowSizes ps0)])
       \<and> ((\<forall>i<length (windowSizes ps0).
              0 \<le> \<lceil>bandFreqsHz ps0 ! i * of_int (fftSizes input ps0 ! i) / of_int (fs input)\<rceil>)
          \<longrightarrow> nChannels (outputBank ps)
                \<le> sum_list (map (\<lambda>i. fftSizes input ps0 ! i div 2) [0..<length (windowSizes ps0)]))"
proof -
  have eq: "map (\<lambda>i. bandBinIndices ps ! i ! 1 - bandBinIndices ps ! i ! 0)
               [0..<length (windowSizes ps0)]
          = map (\<lambda>j. hiBin (fs input) (fftSizes input ps0) (bandFreqsHz ps0) j
                     - loBin (fs input) (fftSizes input ps0) (bandFreqsHz ps0) j)
               [0..<length (windowSizes ps0)]"
    by (rule map_cong) (simp_all add: bandBinIndices_nth [OF assms])
  have width: "nChannels (outputBank ps)
           = sum_list (map (\<lambda>i. bandBinIndices ps ! i ! 1 - bandBinIndices ps ! i ! 0)
               [0..<length (windowSizes ps0)])"
    unfolding eq by (rule initializeInternal_Done(4) [OF assms])
  have bound: "nChannels (outputBank ps)
                \<le> sum_list (map (\<lambda>i. fftSizes input ps0 ! i div 2) [0..<length (windowSizes ps0)])"
    if h: "\<forall>i<length (windowSizes ps0).
              0 \<le> \<lceil>bandFreqsHz ps0 ! i * of_int (fftSizes input ps0 ! i) / of_int (fs input)\<rceil>"
  proof -
    have "hiBin (fs input) (fftSizes input ps0) (bandFreqsHz ps0) j
            - loBin (fs input) (fftSizes input ps0) (bandFreqsHz ps0) j
          \<le> fftSizes input ps0 ! j div 2" if j: "j < length (windowSizes ps0)" for j
    proof -
      have n: "0 \<le> fftSizes input ps0 ! j" using fftSizes_pos [OF j, of input] by simp
      have "hiBin (fs input) (fftSizes input ps0) (bandFreqsHz ps0) j
              \<le> fftSizes input ps0 ! j div 2 + 1"
        using hiBin_le_nyqIdx [of "fs input" "fftSizes input ps0" "bandFreqsHz ps0" j]
        unfolding nyqIdx_nonneg [OF n] by (simp split: if_splits)
      moreover have "0 \<le> binIndex (bandFreqsHz ps0 ! j) (fftSizes input ps0 ! j) (fs input)"
        using h j unfolding binIndex_def by blast
      then have "1 \<le> loBin (fs input) (fftSizes input ps0) (bandFreqsHz ps0) j"
        by (simp add: loBin_def Let_def)
      ultimately show ?thesis by simp
    qed
    then have "sum_list (map (\<lambda>j. hiBin (fs input) (fftSizes input ps0) (bandFreqsHz ps0) j
                     - loBin (fs input) (fftSizes input ps0) (bandFreqsHz ps0) j)
               [0..<length (windowSizes ps0)])
        \<le> sum_list (map (\<lambda>i. fftSizes input ps0 ! i div 2) [0..<length (windowSizes ps0)])"
      by (intro sum_list_mono) simp
    then show ?thesis unfolding initializeInternal_Done(4) [OF assms] .
  qed
  from width bound show ?thesis by blast
qed

theorem C6_witness:
  "is_Done (initializeInternal exampleInput exampleSpectrum)
   \<and> nChannels (outputBank (object_of (initializeInternal exampleInput exampleSpectrum))) = 87
   \<and> 0 \<le> \<lceil>bandFreqsHz exampleSpectrum ! 0 * of_int (fftSizes exampleInput exampleSpectrum ! 0)
            / of_int (fs exampleInput)\<rceil>
   \<and> 0 \<le> \<lceil>bandFreqsHz exampleSpectrum ! 1 * of_int (fftSizes exampleInput exampleSpectrum ! 1)
            / of_int (fs exampleInput)\<rceil>
   \<and> sum_list (map (\<lambda>i. fftSizes exampleInput exampleSpectrum ! i div 2)
        [0..<length (windowSizes exampleSpectrum)]) = 640"
proof -
  note th = C6_output_width [OF is_Done_object [OF example_is_Done]]
  have l: "length (windowSizes exampleSpectrum) = 2" by (simp add: example_defs)
  have w: "nChannels (outputBank (object_of (initializeInternal exampleInput exampleSpectrum))) = 87"
    using th unfolding l by (simp add: example_bins upt_2)
  have lo: "0 \<le> \<lceil>bandFreqsHz exampleSpectrum ! 0 * of_int (fftSizes exampleInput exampleSpectrum ! 0)
            / of_int (fs exampleInput)\<rceil>"
    "0 \<le> \<lceil>bandFreqsHz exampleSpectrum ! 1 * of_int (fftSizes exampleInput exampleSpectrum ! 1)
            / of_int (fs exampleInput)\<rceil>"
    by (simp_all add: example_defs bin_defs)
  have s: "sum_list (map (\<lambda>i. fftSizes exampleInput exampleSpectrum ! i div 2)
        [0..<length (windowSizes exampleSpectrum)]) = 640"
    unfolding l by (simp add: example_defs bin_defs upt_2)
  show ?thesis using example_is_Done w lo s by blast
qed

text \<open>
  C6 as stated fails in its second half: with band edges -32000, 1000 and 8000 Hz the
  first channel keeps the lower bin -1024, so the declared width is
  \<open>(32 + 1024) + (64 - 8) = 1112\<close>, above \<open>1024 / 2 + 256 / 2 = 640\<close>.
\<close>

theorem C6_counterexample:
  "is_Done (initializeInternal exampleInput negativeSpectrum)
   \<and> nChannels (outputBank (object_of (initializeInternal exampleInput negativeSpectrum))) = 1112
   \<and> fftSizes exampleInput negativeSpectrum = [1024, 256]
   \<and> \<not> (1112::int) \<le> 1024 div 2 + 256 div 2"
proof -
  have l: "length (windowSizes negativeSpectrum) = 2" by (simp add: example_defs)
  have "nChannels (outputBank (object_of (initializeInternal exampleInput negativeSpectrum))) = 1112"
    unfolding initializeInternal_Done(4) [OF is_Done_object [OF negative_is_Done]] l
    by (simp add: example_defs bin_defs upt_2)
  moreover have "fftSizes exampleInput negativeSpectrum = [1024, 256]"
    by (simp add: example_defs bin_defs)
  ultimately show ?thesis using negative_is_Done by simp
qed

subsection \<open>C7: The normalisation factors\<close>

text \<open>
  C7. The property: the normalisation factor of channel \<open>i\<close> is \<open>1 / ref^2\<close> for NONE,
  \<open>2 / (fftSize[i] * ref^2)\<close> for ENERGY and \<open>2 / (fftSize[i] * windowSizes[i] * ref^2)\<close> for
  AVERAGE_POWER, the default mode, with the default reference value 2e-5. In the branch
  of AVERAGE_POWER the code multiplies \<open>fftSize[i] * windowSizes[i]\<close> in \<^verbatim>\<open>int\<close> (line 113),
  unlike the branch of ENERGY, which converts first. For a window of 49152 samples the
  FFT size is 65536 and the product 3221225472 does not fit: reduced to 32 bits it is
  -1073741824, and the stored factor is negative where the formula gives a positive one.
\<close>

theorem C7_average_power_overflow:
  "is_Done (initializeInternal longInput longWindowSpectrum)
   \<and> normalisation longWindowSpectrum = AVERAGE_POWER
   \<and> referenceValue longWindowSpectrum = 2 / 10 ^ 5
   \<and> windowSizes longWindowSpectrum = [49152]
   \<and> fftSizes longInput longWindowSpectrum = [65536]
   \<and> normFactor (object_of (initializeInternal longInput longWindowSpectrum)) ! 0
       = 2 / (- 1073741824 * (2 / 10 ^ 5)\<^sup>2)
   \<and> normFactor (object_of (initializeInternal longInput longWindowSpectrum)) ! 0 < 0
   \<and> (0::real) < 2 / (65536 * 49152 * (2 / 10 ^ 5)\<^sup>2)"
proof -
  have "normalisation longWindowSpectrum = AVERAGE_POWER"
    "referenceValue longWindowSpectrum = 2 / 10 ^ 5"
    "windowSizes longWindowSpectrum = [49152]"
    "fftSizes longInput longWindowSpectrum = [65536]"
    by (simp_all add: example_defs fftSizes_def nextPowerOfTwo_49152)
  then show ?thesis using long_is_Done by (simp add: long_factor)
qed

subsection \<open>C8: The object after a failed call\<close>

text \<open>
  C8, as the code has it. \<open>initializeInternal\<close> clears the engines before its first check
  and has no rollback. When it fails, the output bank (shape, frame rate and centre
  frequencies) and the parameters of the object are as before, but the engines are not.
  After a ShapeMismatch or InvalidParameter failure the object is the previous one with
  an empty list of engines. After an EmptyBand failure for channel \<open>j\<close> the engines are the
  newly created ones; the bin ranges and normalisation factors have been resized to the
  number of windows; the channels before \<open>j\<close> hold their new (clamped) bin range and new
  factor, channel \<open>j\<close> holds its computed bin range without clamping and the factor it had,
  and the channels after \<open>j\<close> hold what they had.
\<close>

theorem C8_state_after_failure:
  assumes "initializeInternal input ps0 = Aborted err ps"
  shows "outputBank ps = outputBank ps0
       \<and> bandFreqsHz ps = bandFreqsHz ps0 \<and> windowSizes ps = windowSizes ps0
       \<and> sampleSpectrumUniformly ps = sampleSpectrumUniformly ps0
       \<and> normalisation ps = normalisation ps0 \<and> referenceValue ps = referenceValue ps0
       \<and> (err = ShapeMismatch \<or> err = InvalidParameter \<longrightarrow> ps = ps0\<lparr>ffts := []\<rparr>)
       \<and> (\<forall>j. err = EmptyBand j \<longrightarrow>
            ps = ps0\<lparr>ffts := map (\<lambda>n. FFT_initialize (new_FFT n))
                            (if sampleSpectrumUniformly ps0 then [nextPowerOfTwo (nSamples input)]
                             else fftSizes input ps0),
                    bandBinIndices :=
                      map (\<lambda>k. [loBin (fs input) (fftSizes input ps0) (bandFreqsHz ps0) k,
                                hiBin (fs input) (fftSizes input ps0) (bandFreqsHz ps0) k]) [0..<j]
                      @ [[binIndex (bandFreqsHz ps0 ! j) (fftSizes input ps0 ! j) (fs input),
                          binIndex (bandFreqsHz ps0 ! (j + 1)) (fftSizes input ps0 ! j) (fs input)]]
                      @ drop (Suc j) (resize (length (windowSizes ps0)) [] (bandBinIndices ps0)),
                    normFactor :=
                      map (\<lambda>k. normalisationFactor (normalisation ps0) (fftSizes input ps0 ! k)
                                 (windowSizes ps0 ! k) (referenceValue ps0 * referenceValue ps0)) [0..<j]
                      @ drop j (resize (length (windowSizes ps0)) 0 (normFactor ps0))\<rparr>)"
proof -
  let ?fields = "\<lambda>ps. outputBank ps = outputBank ps0
       \<and> bandFreqsHz ps = bandFreqsHz ps0 \<and> windowSizes ps = windowSizes ps0
       \<and> sampleSpectrumUniformly ps = sampleSpectrumUniformly ps0
       \<and> normalisation ps = normalisation ps0 \<and> referenceValue ps = referenceValue ps0"
  have early: ?thesis if e: "ps = ps0\<lparr>ffts := []\<rparr>" and n: "\<forall>j. err \<noteq> EmptyBand j"
  proof -
    have "?fields ps" unfolding e by simp
    then show ?thesis using e n by blast
  qed
  have band: ?thesis
    if su: "fftSetup input (ps0\<lparr>ffts := []\<rparr>) = Inr (fftSizes input ps0, engines)"
    and bl: "bandLoop (fs input) (fftSizes input ps0) (length (windowSizes ps0)) 0 0
           (ps0\<lparr>ffts := engines,
                bandBinIndices := resize (length (windowSizes ps0)) [] (bandBinIndices ps0),
                normFactor := resize (length (windowSizes ps0)) 0 (normFactor ps0)\<rparr>)
           = Inl (err, ps)" for engines
  proof -
    from bandLoop_Inl [OF bl] obtain j where j: "err = EmptyBand j" by blast
    have eng: "engines = map (\<lambda>n. FFT_initialize (new_FFT n))
                            (if sampleSpectrumUniformly ps0 then [nextPowerOfTwo (nSamples input)]
                             else fftSizes input ps0)"
      using fftSetup_sizes [OF su] by simp
    have eq: "ps = ps0\<lparr>ffts := engines,
                    bandBinIndices :=
                      map (\<lambda>k. [loBin (fs input) (fftSizes input ps0) (bandFreqsHz ps0) k,
                                hiBin (fs input) (fftSizes input ps0) (bandFreqsHz ps0) k]) [0..<j]
                      @ [[binIndex (bandFreqsHz ps0 ! j) (fftSizes input ps0 ! j) (fs input),
                          binIndex (bandFreqsHz ps0 ! (j + 1)) (fftSizes input ps0 ! j) (fs input)]]
                      @ drop (Suc j) (resize (length (windowSizes ps0)) [] (bandBinIndices ps0)),
                    normFactor :=
                      map (\<lambda>k. normalisationFactor (normalisation ps0) (fftSizes input ps0 ! k)
                                 (windowSizes ps0 ! k) (referenceValue ps0 * referenceValue ps0)) [0..<j]
                      @ drop j (resize (length (windowSizes ps0)) 0 (normFactor ps0))\<rparr>"
      using bandLoop_Inl_state [OF bl [unfolded j]] by (simp add: resize_length)
    have "?fields ps" by (subst eq, simp)+
    then show ?thesis using j eq unfolding eng by blast
  qed
  from initializeInternal_Aborted_cases [OF assms] early band show ?thesis by blast
qed

theorem C8_witness:
  "initializeInternal wideInput (object_of (initializeInternal exampleInput exampleSpectrum))
     = Aborted ShapeMismatch
         ((object_of (initializeInternal exampleInput exampleSpectrum))\<lparr>ffts := []\<rparr>)
   \<and> outputBank ((object_of (initializeInternal exampleInput exampleSpectrum))\<lparr>ffts := []\<rparr>)
       = outputBank (object_of (initializeInternal exampleInput exampleSpectrum))
   \<and> bandBinIndices ((object_of (initializeInternal exampleInput exampleSpectrum))\<lparr>ffts := []\<rparr>)
       = [[1, 32], [8, 64]]
   \<and> \<not> is_Done (initializeInternal exampleInput emptyBandSpectrum)
   \<and> failure_of (initializeInternal exampleInput emptyBandSpectrum) = EmptyBand 1
   \<and> outputBank (object_of (initializeInternal exampleInput emptyBandSpectrum))
       = outputBank emptyBandSpectrum
   \<and> map fft_size (ffts (object_of (initializeInternal exampleInput emptyBandSpectrum))) = [1024, 256]
   \<and> bandBinIndices (object_of (initializeInternal exampleInput emptyBandSpectrum)) = [[1, 32], [8, 0]]
   \<and> normFactor (object_of (initializeInternal exampleInput emptyBandSpectrum))
       = [2 / (1024 * 1024 * (2 / 10 ^ 5)\<^sup>2), 0]"
proof -
  note a = C8_state_after_failure [OF example_prior_rejected]
  from empty_band_example obtain ps where
    e: "initializeInternal exampleInput emptyBandSpectrum = Aborted (EmptyBand 1) ps" by blast
  note b = C8_state_after_failure [OF e]
  from b have o: "outputBank ps = outputBank emptyBandSpectrum" by blast
  from b have "ps = emptyBandSpectrum\<lparr>ffts := map (\<lambda>n. FFT_initialize (new_FFT n))
                            (if sampleSpectrumUniformly emptyBandSpectrum
                             then [nextPowerOfTwo (nSamples exampleInput)]
                             else fftSizes exampleInput emptyBandSpectrum),
                    bandBinIndices :=
                      map (\<lambda>k. [loBin (fs exampleInput) (fftSizes exampleInput emptyBandSpectrum)
                                  (bandFreqsHz emptyBandSpectrum) k,
                                hiBin (fs exampleInput) (fftSizes exampleInput emptyBandSpectrum)
                                  (bandFreqsHz emptyBandSpectrum) k]) [0..<1]
                      @ [[binIndex (bandFreqsHz emptyBandSpectrum ! 1)
                            (fftSizes exampleInput emptyBandSpectrum ! 1) (fs exampleInput),
                          binIndex (bandFreqsHz emptyBandSpectrum ! (1 + 1))
                            (fftSizes exampleInput emptyBandSpectrum ! 1) (fs exampleInput)]]
                      @ drop (Suc 1) (resize (length (windowSizes emptyBandSpectrum)) []
                           (bandBinIndices emptyBandSpectrum)),
                    normFactor :=
                      map (\<lambda>k. normalisationFactor (normalisation emptyBandSpectrum)
                                 (fftSizes exampleInput emptyBandSpectrum ! k)
                                 (windowSizes emptyBandSpectrum ! k)
                                 (referenceValue emptyBandSpectrum * referenceValue emptyBandSpectrum))
                        [0..<1]
                      @ drop 1 (resize (length (windowSizes emptyBandSpectrum)) 0
                           (normFactor emptyBandSpectrum))\<rparr>"
    by blast
  then have s: "map fft_size (ffts ps) = [1024, 256]" "bandBinIndices ps = [[1, 32], [8, 0]]"
    "normFactor ps = [2 / (1024 * 1024 * (2 / 10 ^ 5)\<^sup>2), 0]"
    by (simp_all add: example_defs bin_defs upt_1 resize_def FFT_initialize_def new_FFT_def
        normalisationFactor_def c_int_def power2_eq_square)
  show ?thesis
    using a example_prior_rejected o s unfolding e by (simp add: example_bins)
qed

text \<open>
  C8 as stated fails: an object configured for the two-channel example and then offered
  an input bank with three channels fails with ShapeMismatch and has lost its two
  engines; a following \<open>processInternal\<close> would read \<^verbatim>\<open>ffts_[0]\<close> of an empty vector.
\<close>

theorem C8_counterexample:
  "is_Done (initializeInternal exampleInput exampleSpectrum)
   \<and> map fft_size (ffts (object_of (initializeInternal exampleInput exampleSpectrum))) = [1024, 256]
   \<and> \<not> is_Done (initializeInternal wideInput (object_of (initializeInternal exampleInput exampleSpectrum)))
   \<and> failure_of (initializeInternal wideInput (object_of (initializeInternal exampleInput exampleSpectrum)))
       = ShapeMismatch
   \<and> ffts (object_of (initializeInternal wideInput
         (object_of (initializeInternal exampleInput exampleSpectrum)))) = []
   \<and> processInternal zeroAccessor zeroAccessor exampleInput
        (object_of (initializeInternal wideInput
           (object_of (initializeInternal exampleInput exampleSpectrum)))) = Inl OutOfBounds"
proof -
  have "processInternal zeroAccessor zeroAccessor exampleInput
        ((object_of (initializeInternal exampleInput exampleSpectrum))\<lparr>ffts := []\<rparr>) = Inl OutOfBounds"
    by (rule processInternal_no_engines) (simp_all add: example_prior_fields, simp add: example_defs)
  then show ?thesis
    using example_is_Done unfolding example_prior_rejected
    by (simp add: example_prior_fields)
qed

subsection \<open>C9: The shape and order checks\<close>

text \<open>
  C9. \<open>initializeInternal\<close> fails with ShapeMismatch when the number of input channels
  differs from the number of windows, or the number of band edges differs from the
  number of windows plus one; when both counts agree and the windows contain an
  ascending adjacent pair it fails with InvalidParameter, whatever the values of the
  band edges and the sample rate are: the three checks come first in that order, before
  any bin is computed.
\<close>

theorem C9_shape_and_order_checks:
  "(nChannels input \<noteq> int (length (windowSizes ps0))
      \<or> length (bandFreqsHz ps0) \<noteq> length (windowSizes ps0) + 1
    \<longrightarrow> initializeInternal input ps0 = Aborted ShapeMismatch (ps0\<lparr>ffts := []\<rparr>))
   \<and> (nChannels input = int (length (windowSizes ps0))
      \<and> length (bandFreqsHz ps0) = length (windowSizes ps0) + 1
      \<and> (\<exists>i. Suc i < length (windowSizes ps0) \<and> windowSizes ps0 ! i < windowSizes ps0 ! Suc i)
    \<longrightarrow> initializeInternal input ps0 = Aborted InvalidParameter (ps0\<lparr>ffts := []\<rparr>))"
  unfolding anyAscendingValues_iff [symmetric]
  using initializeInternal_shape [of input ps0] initializeInternal_order [of input ps0]
  by blast

theorem C9_witness:
  "nChannels wideInput \<noteq> int (length (windowSizes exampleSpectrum))
   \<and> initializeInternal wideInput exampleSpectrum = Aborted ShapeMismatch (exampleSpectrum\<lparr>ffts := []\<rparr>)
   \<and> nChannels exampleInput = int (length (windowSizes ascendingSpectrum))
   \<and> length (bandFreqsHz ascendingSpectrum) = length (windowSizes ascendingSpectrum) + 1
   \<and> Suc 0 < length (windowSizes ascendingSpectrum)
   \<and> windowSizes ascendingSpectrum ! 0 < windowSizes ascendingSpectrum ! Suc 0
   \<and> initializeInternal exampleInput ascendingSpectrum
       = Aborted InvalidParameter (ascendingSpectrum\<lparr>ffts := []\<rparr>)"
proof -
  have a: "nChannels wideInput \<noteq> int (length (windowSizes exampleSpectrum))"
    by (simp add: example_defs)
  have b: "nChannels exampleInput = int (length (windowSizes ascendingSpectrum))"
    "length (bandFreqsHz ascendingSpectrum) = length (windowSizes ascendingSpectrum) + 1"
    "Suc 0 < length (windowSizes ascendingSpectrum)"
    "windowSizes ascendingSpectrum ! 0 < windowSizes ascendingSpectrum ! Suc 0"
    by (simp_all add: example_defs)
  from b(3,4) have c: "\<exists>i. Suc i < length (windowSizes ascendingSpectrum)
      \<and> windowSizes ascendingSpectrum ! i < windowSizes ascendingSpectrum ! Suc i" by blast
  show ?thesis
    using C9_shape_and_order_checks [of wideInput exampleSpectrum]
      C9_shape_and_order_checks [of exampleInput ascendingSpectrum] a b c
    by blast
qed

subsection \<open>C10: A negative lower bin\<close>

text \<open>
  C10. The DC exclusion changes the computed lower bin of a channel only when it is
  exactly 0. When \<open>ceil(bandFreqsHz[i] * fftSize[i] / fs)\<close> is negative for a channel of an
  accepted configuration, the stored lower bin is that negative value, the declared
  output width counts the channel with it, and a following \<open>processInternal\<close> on a frame
  with at least one ear reads the selected engine at that negative bin index.
\<close>

theorem C10_negative_lower_bin:
  assumes "initializeInternal input ps0 = Done ps" and "i < length (windowSizes ps0)"
  shows "(bandBinIndices ps ! i ! 0
            \<noteq> \<lceil>bandFreqsHz ps0 ! i * of_int (fftSizes input ps0 ! i) / of_int (fs input)\<rceil>)
          = (\<lceil>bandFreqsHz ps0 ! i * of_int (fftSizes input ps0 ! i) / of_int (fs input)\<rceil> = 0)
       \<and> (\<lceil>bandFreqsHz ps0 ! i * of_int (fftSizes input ps0 ! i) / of_int (fs input)\<rceil> < 0 \<longrightarrow>
            bandBinIndices ps ! i ! 0
              = \<lceil>bandFreqsHz ps0 ! i * of_int (fftSizes input ps0 ! i) / of_int (fs input)\<rceil>
            \<and> nChannels (outputBank ps)
                = sum_list (map (\<lambda>j. bandBinIndices ps ! j ! 1 - bandBinIndices ps ! j ! 0)
                    [0..<length (windowSizes ps0)])
            \<and> (0 < nEars frame \<longrightarrow>
                 (\<exists>r. processInternal getReal getImag frame ps = Inr r
                    \<and> (if sampleSpectrumUniformly ps0 then 0 else i, bandBinIndices ps ! i ! 0)
                        \<in> set (binReads r))))"
proof -
  define raw where "raw = binIndex (bandFreqsHz ps0 ! i) (fftSizes input ps0 ! i) (fs input)"
  have raw: "\<lceil>bandFreqsHz ps0 ! i * of_int (fftSizes input ps0 ! i) / of_int (fs input)\<rceil> = raw"
    by (simp add: raw_def binIndex_def)
  note d = initializeInternal_Done [OF assms(1)]
  have lo: "bandBinIndices ps ! i ! 0 = (if raw = 0 then 1 else raw)"
    unfolding bandBinIndices_nth [OF assms] by (simp add: loBin_def raw_def Let_def)
  have a: "(bandBinIndices ps ! i ! 0 \<noteq> raw) = (raw = 0)" unfolding lo by simp
  have width: "nChannels (outputBank ps)
                = sum_list (map (\<lambda>j. bandBinIndices ps ! j ! 1 - bandBinIndices ps ! j ! 0)
                    [0..<length (windowSizes ps0)])"
  proof -
    have eq: "map (\<lambda>j. bandBinIndices ps ! j ! 1 - bandBinIndices ps ! j ! 0)
               [0..<length (windowSizes ps0)]
          = map (\<lambda>j. hiBin (fs input) (fftSizes input ps0) (bandFreqsHz ps0) j
                     - loBin (fs input) (fftSizes input ps0) (bandFreqsHz ps0) j)
               [0..<length (windowSizes ps0)]"
      by (rule map_cong) (simp_all add: bandBinIndices_nth [OF assms(1)])
    show ?thesis unfolding eq by (rule d(4))
  qed
  have reads: "\<exists>r. processInternal getReal getImag frame ps = Inr r
                    \<and> (if sampleSpectrumUniformly ps0 then 0 else i, bandBinIndices ps ! i ! 0)
                        \<in> set (binReads r)"
    if neg: "raw < 0" and ears: "0 < nEars frame"
  proof -
    from processInternal_eq [OF configured_ready [OF assms(1)], of getReal getImag frame]
    obtain r where r: "processInternal getReal getImag frame ps = Inr r"
      "binReads r = concat (map (\<lambda>e. concat (map (bandReads ps) [0..<length (windowSizes ps)]))
                      [0..<nat (nEars frame)])"
      by blast
    have w: "windowSizes ps = windowSizes ps0"
      and u: "sampleSpectrumUniformly ps = sampleSpectrumUniformly ps0" using d(6) by simp_all
    have hi: "1 \<le> bandBinIndices ps ! i ! 1"
    proof -
      have "1 \<le> nyqIdx (fftSizes input ps0 ! i)"
        using fftSizes_pos [OF assms(2), of input] by (rule nyqIdx_pos)
      then have "1 \<le> hiBin (fs input) (fftSizes input ps0) (bandFreqsHz ps0) i"
        using initializeInternal_upper_positive [OF assms] by (simp add: hiBin_def Let_def)
      then show ?thesis unfolding bandBinIndices_nth [OF assms] by simp
    qed
    have "bandBinIndices ps ! i ! 0 \<in> set [bandBinIndices ps ! i ! 0..bandBinIndices ps ! i ! 1 - 1]"
      using hi neg unfolding lo by simp
    then have m1: "(engineIndex ps i, bandBinIndices ps ! i ! 0) \<in> set (bandReads ps i)"
      by (auto simp: bandReads_def)
    have m2: "i \<in> set [0..<length (windowSizes ps)]" using assms(2) w by simp
    have "0 \<in> set [0..<nat (nEars frame)]" using ears by simp
    from m1 m2 have "(engineIndex ps i, bandBinIndices ps ! i ! 0)
        \<in> set (concat (map (bandReads ps) [0..<length (windowSizes ps)]))"
      by (rule in_concat_map)
    from this \<open>0 \<in> set [0..<nat (nEars frame)]\<close>
    have "(engineIndex ps i, bandBinIndices ps ! i ! 0) \<in> set (binReads r)"
      unfolding r(2) by (rule in_concat_map)
    then have "(if sampleSpectrumUniformly ps0 then 0 else i, bandBinIndices ps ! i ! 0)
        \<in> set (binReads r)"
      by (simp add: engineIndex_def u)
    with r(1) show ?thesis by blast
  qed
  have neg: "raw < 0 \<longrightarrow>
            bandBinIndices ps ! i ! 0 = raw
            \<and> nChannels (outputBank ps)
                = sum_list (map (\<lambda>j. bandBinIndices ps ! j ! 1 - bandBinIndices ps ! j ! 0)
                    [0..<length (windowSizes ps0)])
            \<and> (0 < nEars frame \<longrightarrow>
                 (\<exists>r. processInternal getReal getImag frame ps = Inr r
                    \<and> (if sampleSpectrumUniformly ps0 then 0 else i, bandBinIndices ps ! i ! 0)
                        \<in> set (binReads r)))"
    using lo width reads by simp
  show ?thesis unfolding raw using a neg by (rule conjI)
qed

theorem C10_witness:
  "is_Done (initializeInternal exampleInput negativeSpectrum)
   \<and> (0::nat) < length (windowSizes negativeSpectrum)
   \<and> \<lceil>bandFreqsHz negativeSpectrum ! 0 * of_int (fftSizes exampleInput negativeSpectrum ! 0)
        / of_int (fs exampleInput)\<rceil> = - 1024
   \<and> 0 < nEars exampleInput
   \<and> bandBinIndices (object_of (initializeInternal exampleInput negativeSpectrum)) ! 0 ! 0 = - 1024
   \<and> nChannels (outputBank (object_of (initializeInternal exampleInput negativeSpectrum))) = 1112
   \<and> \<not> isl (processInternal zeroAccessor zeroAccessor exampleInput
              (object_of (initializeInternal exampleInput negativeSpectrum)))
   \<and> (0, - 1024) \<in> set (binReads (projr (processInternal zeroAccessor zeroAccessor exampleInput
              (object_of (initializeInternal exampleInput negativeSpectrum)))))"
proof -
  have i: "(0::nat) < length (windowSizes negativeSpectrum)"
    and ears: "0 < nEars exampleInput"
    and u: "\<not> sampleSpectrumUniformly negativeSpectrum"
    and l: "length (windowSizes negativeSpectrum) = 2"
    by (simp_all add: example_defs)
  have raw: "\<lceil>bandFreqsHz negativeSpectrum ! 0 * of_int (fftSizes exampleInput negativeSpectrum ! 0)
        / of_int (fs exampleInput)\<rceil> = - 1024"
    by (simp add: example_defs bin_defs)
  note th = C10_negative_lower_bin [OF is_Done_object [OF negative_is_Done] i,
      where getReal = zeroAccessor and getImag = zeroAccessor and frame = exampleInput,
      unfolded raw l]
  from th ears u obtain r where r:
    "processInternal zeroAccessor zeroAccessor exampleInput
       (object_of (initializeInternal exampleInput negativeSpectrum)) = Inr r"
    "(0, bandBinIndices (object_of (initializeInternal exampleInput negativeSpectrum)) ! 0 ! 0)
       \<in> set (binReads r)"
    by auto
  from th have w: "nChannels (outputBank (object_of (initializeInternal exampleInput negativeSpectrum)))
      = 1112"
    by (simp add: negative_bins upt_2)
  have b: "bandBinIndices (object_of (initializeInternal exampleInput negativeSpectrum)) ! 0 ! 0 = - 1024"
    by (simp add: negative_bins)
  show ?thesis
    using negative_is_Done i raw ears b w Inr_projr [OF r(1)] r(2) by simp
qed

end
